theory Spec2Isabelle
  imports Main "HOL-Library.AList" "HOL-Library.List_Lexorder"
begin

unbundle bit_operations_syntax

section \<open>Python strings\<close>

text \<open>
  A Python \<^verbatim>\<open>str\<close> is a sequence of Unicode code points, and the program compares,
  slices and classifies strings code point by code point.  A string is therefore modelled
  as a list of code points (natural numbers); \<open>py\<close> turns an ASCII literal into such a
  list, so that \<open>py ''(p&q)''\<close> is the Python string \<^verbatim>\<open>'(p&q)'\<close>.
\<close>

type_synonym pystr = "nat list"

abbreviation py :: "string \<Rightarrow> pystr" where
  "py s \<equiv> map of_char s"

text \<open>
  \<^verbatim>\<open>str.isdecimal\<close> and \<^verbatim>\<open>str.isalpha\<close> consult the Unicode character database: a character
  is decimal when its general category is Nd, and alphabetic when its general category
  is one of Lu, Ll, Lt, Lm, Lo.  On ASCII these are the digits \<^verbatim>\<open>0\<close> to \<^verbatim>\<open>9\<close> and the
  letters \<^verbatim>\<open>A\<close> to \<^verbatim>\<open>Z\<close>, \<^verbatim>\<open>a\<close> to \<^verbatim>\<open>z\<close>.  The two tables list the code point ranges
  (both ends included) beyond ASCII, as of Unicode 14.0 (CPython 3.11).
\<close>

fun in_ranges :: "nat \<Rightarrow> (nat \<times> nat) list \<Rightarrow> bool" where
  "in_ranges c [] = False"
| "in_ranges c ((lo, hi) # rs) = ((lo \<le> c \<and> c \<le> hi) \<or> in_ranges c rs)"

definition decimal_ranges :: "(nat \<times> nat) list" where
  "decimal_ranges = [
  (1632, 1641), (1776, 1785), (1984, 1993), (2406, 2415), (2534, 2543), (2662, 2671),
   (2790, 2799), (2918, 2927), (3046, 3055), (3174, 3183), (3302, 3311), (3430, 3439),
   (3558, 3567), (3664, 3673), (3792, 3801), (3872, 3881), (4160, 4169), (4240, 4249),
   (6112, 6121), (6160, 6169), (6470, 6479), (6608, 6617), (6784, 6793), (6800, 6809),
   (6992, 7001), (7088, 7097), (7232, 7241), (7248, 7257), (42528, 42537), (43216, 43225),
   (43264, 43273), (43472, 43481), (43504, 43513), (43600, 43609), (44016, 44025),
   (65296, 65305), (66720, 66729), (68912, 68921), (69734, 69743), (69872, 69881),
   (69942, 69951), (70096, 70105), (70384, 70393), (70736, 70745), (70864, 70873),
   (71248, 71257), (71360, 71369), (71472, 71481), (71904, 71913), (72016, 72025),
   (72784, 72793), (73040, 73049), (73120, 73129), (92768, 92777), (92864, 92873),
   (93008, 93017), (120782, 120831), (123200, 123209), (123632, 123641), (125264, 125273),
   (130032, 130041)]"

definition alpha_ranges :: "(nat \<times> nat) list" where
  "alpha_ranges = [
  (170, 170), (181, 181), (186, 186), (192, 214), (216, 246), (248, 705), (710, 721),
   (736, 740), (748, 748), (750, 750), (880, 884), (886, 887), (890, 893), (895, 895),
   (902, 902), (904, 906), (908, 908), (910, 929), (931, 1013), (1015, 1153), (1162, 1327),
   (1329, 1366), (1369, 1369), (1376, 1416), (1488, 1514), (1519, 1522), (1568, 1610),
   (1646, 1647), (1649, 1747), (1749, 1749), (1765, 1766), (1774, 1775), (1786, 1788),
   (1791, 1791), (1808, 1808), (1810, 1839), (1869, 1957), (1969, 1969), (1994, 2026),
   (2036, 2037), (2042, 2042), (2048, 2069), (2074, 2074), (2084, 2084), (2088, 2088),
   (2112, 2136), (2144, 2154), (2160, 2183), (2185, 2190), (2208, 2249), (2308, 2361),
   (2365, 2365), (2384, 2384), (2392, 2401), (2417, 2432), (2437, 2444), (2447, 2448),
   (2451, 2472), (2474, 2480), (2482, 2482), (2486, 2489), (2493, 2493), (2510, 2510),
   (2524, 2525), (2527, 2529), (2544, 2545), (2556, 2556), (2565, 2570), (2575, 2576),
   (2579, 2600), (2602, 2608), (2610, 2611), (2613, 2614), (2616, 2617), (2649, 2652),
   (2654, 2654), (2674, 2676), (2693, 2701), (2703, 2705), (2707, 2728), (2730, 2736),
   (2738, 2739), (2741, 2745), (2749, 2749), (2768, 2768), (2784, 2785), (2809, 2809),
   (2821, 2828), (2831, 2832), (2835, 2856), (2858, 2864), (2866, 2867), (2869, 2873),
   (2877, 2877), (2908, 2909), (2911, 2913), (2929, 2929), (2947, 2947), (2949, 2954),
   (2958, 2960), (2962, 2965), (2969, 2970), (2972, 2972), (2974, 2975), (2979, 2980),
   (2984, 2986), (2990, 3001), (3024, 3024), (3077, 3084), (3086, 3088), (3090, 3112),
   (3114, 3129), (3133, 3133), (3160, 3162), (3165, 3165), (3168, 3169), (3200, 3200),
   (3205, 3212), (3214, 3216), (3218, 3240), (3242, 3251), (3253, 3257), (3261, 3261),
   (3293, 3294), (3296, 3297), (3313, 3314), (3332, 3340), (3342, 3344), (3346, 3386),
   (3389, 3389), (3406, 3406), (3412, 3414), (3423, 3425), (3450, 3455), (3461, 3478),
   (3482, 3505), (3507, 3515), (3517, 3517), (3520, 3526), (3585, 3632), (3634, 3635),
   (3648, 3654), (3713, 3714), (3716, 3716), (3718, 3722), (3724, 3747), (3749, 3749),
   (3751, 3760), (3762, 3763), (3773, 3773), (3776, 3780), (3782, 3782), (3804, 3807),
   (3840, 3840), (3904, 3911), (3913, 3948), (3976, 3980), (4096, 4138), (4159, 4159),
   (4176, 4181), (4186, 4189), (4193, 4193), (4197, 4198), (4206, 4208), (4213, 4225),
   (4238, 4238), (4256, 4293), (4295, 4295), (4301, 4301), (4304, 4346), (4348, 4680),
   (4682, 4685), (4688, 4694), (4696, 4696), (4698, 4701), (4704, 4744), (4746, 4749),
   (4752, 4784), (4786, 4789), (4792, 4798), (4800, 4800), (4802, 4805), (4808, 4822),
   (4824, 4880), (4882, 4885), (4888, 4954), (4992, 5007), (5024, 5109), (5112, 5117),
   (5121, 5740), (5743, 5759), (5761, 5786), (5792, 5866), (5873, 5880), (5888, 5905),
   (5919, 5937), (5952, 5969), (5984, 5996), (5998, 6000), (6016, 6067), (6103, 6103),
   (6108, 6108), (6176, 6264), (6272, 6276), (6279, 6312), (6314, 6314), (6320, 6389),
   (6400, 6430), (6480, 6509), (6512, 6516), (6528, 6571), (6576, 6601), (6656, 6678),
   (6688, 6740), (6823, 6823), (6917, 6963), (6981, 6988), (7043, 7072), (7086, 7087),
   (7098, 7141), (7168, 7203), (7245, 7247), (7258, 7293), (7296, 7304), (7312, 7354),
   (7357, 7359), (7401, 7404), (7406, 7411), (7413, 7414), (7418, 7418), (7424, 7615),
   (7680, 7957), (7960, 7965), (7968, 8005), (8008, 8013), (8016, 8023), (8025, 8025),
   (8027, 8027), (8029, 8029), (8031, 8061), (8064, 8116), (8118, 8124), (8126, 8126),
   (8130, 8132), (8134, 8140), (8144, 8147), (8150, 8155), (8160, 8172), (8178, 8180),
   (8182, 8188), (8305, 8305), (8319, 8319), (8336, 8348), (8450, 8450), (8455, 8455),
   (8458, 8467), (8469, 8469), (8473, 8477), (8484, 8484), (8486, 8486), (8488, 8488),
   (8490, 8493), (8495, 8505), (8508, 8511), (8517, 8521), (8526, 8526), (8579, 8580),
   (11264, 11492), (11499, 11502), (11506, 11507), (11520, 11557), (11559, 11559),
   (11565, 11565), (11568, 11623), (11631, 11631), (11648, 11670), (11680, 11686),
   (11688, 11694), (11696, 11702), (11704, 11710), (11712, 11718), (11720, 11726),
   (11728, 11734), (11736, 11742), (11823, 11823), (12293, 12294), (12337, 12341),
   (12347, 12348), (12353, 12438), (12445, 12447), (12449, 12538), (12540, 12543),
   (12549, 12591), (12593, 12686), (12704, 12735), (12784, 12799), (13312, 19903),
   (19968, 42124), (42192, 42237), (42240, 42508), (42512, 42527), (42538, 42539),
   (42560, 42606), (42623, 42653), (42656, 42725), (42775, 42783), (42786, 42888),
   (42891, 42954), (42960, 42961), (42963, 42963), (42965, 42969), (42994, 43009),
   (43011, 43013), (43015, 43018), (43020, 43042), (43072, 43123), (43138, 43187),
   (43250, 43255), (43259, 43259), (43261, 43262), (43274, 43301), (43312, 43334),
   (43360, 43388), (43396, 43442), (43471, 43471), (43488, 43492), (43494, 43503),
   (43514, 43518), (43520, 43560), (43584, 43586), (43588, 43595), (43616, 43638),
   (43642, 43642), (43646, 43695), (43697, 43697), (43701, 43702), (43705, 43709),
   (43712, 43712), (43714, 43714), (43739, 43741), (43744, 43754), (43762, 43764),
   (43777, 43782), (43785, 43790), (43793, 43798), (43808, 43814), (43816, 43822),
   (43824, 43866), (43868, 43881), (43888, 44002), (44032, 55203), (55216, 55238),
   (55243, 55291), (63744, 64109), (64112, 64217), (64256, 64262), (64275, 64279),
   (64285, 64285), (64287, 64296), (64298, 64310), (64312, 64316), (64318, 64318),
   (64320, 64321), (64323, 64324), (64326, 64433), (64467, 64829), (64848, 64911),
   (64914, 64967), (65008, 65019), (65136, 65140), (65142, 65276), (65313, 65338),
   (65345, 65370), (65382, 65470), (65474, 65479), (65482, 65487), (65490, 65495),
   (65498, 65500), (65536, 65547), (65549, 65574), (65576, 65594), (65596, 65597),
   (65599, 65613), (65616, 65629), (65664, 65786), (66176, 66204), (66208, 66256),
   (66304, 66335), (66349, 66368), (66370, 66377), (66384, 66421), (66432, 66461),
   (66464, 66499), (66504, 66511), (66560, 66717), (66736, 66771), (66776, 66811),
   (66816, 66855), (66864, 66915), (66928, 66938), (66940, 66954), (66956, 66962),
   (66964, 66965), (66967, 66977), (66979, 66993), (66995, 67001), (67003, 67004),
   (67072, 67382), (67392, 67413), (67424, 67431), (67456, 67461), (67463, 67504),
   (67506, 67514), (67584, 67589), (67592, 67592), (67594, 67637), (67639, 67640),
   (67644, 67644), (67647, 67669), (67680, 67702), (67712, 67742), (67808, 67826),
   (67828, 67829), (67840, 67861), (67872, 67897), (67968, 68023), (68030, 68031),
   (68096, 68096), (68112, 68115), (68117, 68119), (68121, 68149), (68192, 68220),
   (68224, 68252), (68288, 68295), (68297, 68324), (68352, 68405), (68416, 68437),
   (68448, 68466), (68480, 68497), (68608, 68680), (68736, 68786), (68800, 68850),
   (68864, 68899), (69248, 69289), (69296, 69297), (69376, 69404), (69415, 69415),
   (69424, 69445), (69488, 69505), (69552, 69572), (69600, 69622), (69635, 69687),
   (69745, 69746), (69749, 69749), (69763, 69807), (69840, 69864), (69891, 69926),
   (69956, 69956), (69959, 69959), (69968, 70002), (70006, 70006), (70019, 70066),
   (70081, 70084), (70106, 70106), (70108, 70108), (70144, 70161), (70163, 70187),
   (70272, 70278), (70280, 70280), (70282, 70285), (70287, 70301), (70303, 70312),
   (70320, 70366), (70405, 70412), (70415, 70416), (70419, 70440), (70442, 70448),
   (70450, 70451), (70453, 70457), (70461, 70461), (70480, 70480), (70493, 70497),
   (70656, 70708), (70727, 70730), (70751, 70753), (70784, 70831), (70852, 70853),
   (70855, 70855), (71040, 71086), (71128, 71131), (71168, 71215), (71236, 71236),
   (71296, 71338), (71352, 71352), (71424, 71450), (71488, 71494), (71680, 71723),
   (71840, 71903), (71935, 71942), (71945, 71945), (71948, 71955), (71957, 71958),
   (71960, 71983), (71999, 71999), (72001, 72001), (72096, 72103), (72106, 72144),
   (72161, 72161), (72163, 72163), (72192, 72192), (72203, 72242), (72250, 72250),
   (72272, 72272), (72284, 72329), (72349, 72349), (72368, 72440), (72704, 72712),
   (72714, 72750), (72768, 72768), (72818, 72847), (72960, 72966), (72968, 72969),
   (72971, 73008), (73030, 73030), (73056, 73061), (73063, 73064), (73066, 73097),
   (73112, 73112), (73440, 73458), (73648, 73648), (73728, 74649), (74880, 75075),
   (77712, 77808), (77824, 78894), (82944, 83526), (92160, 92728), (92736, 92766),
   (92784, 92862), (92880, 92909), (92928, 92975), (92992, 92995), (93027, 93047),
   (93053, 93071), (93760, 93823), (93952, 94026), (94032, 94032), (94099, 94111),
   (94176, 94177), (94179, 94179), (94208, 100343), (100352, 101589), (101632, 101640),
   (110576, 110579), (110581, 110587), (110589, 110590), (110592, 110882), (110928, 110930),
   (110948, 110951), (110960, 111355), (113664, 113770), (113776, 113788), (113792, 113800),
   (113808, 113817), (119808, 119892), (119894, 119964), (119966, 119967), (119970, 119970),
   (119973, 119974), (119977, 119980), (119982, 119993), (119995, 119995), (119997, 120003),
   (120005, 120069), (120071, 120074), (120077, 120084), (120086, 120092), (120094, 120121),
   (120123, 120126), (120128, 120132), (120134, 120134), (120138, 120144), (120146, 120485),
   (120488, 120512), (120514, 120538), (120540, 120570), (120572, 120596), (120598, 120628),
   (120630, 120654), (120656, 120686), (120688, 120712), (120714, 120744), (120746, 120770),
   (120772, 120779), (122624, 122654), (123136, 123180), (123191, 123197), (123214, 123214),
   (123536, 123565), (123584, 123627), (124896, 124902), (124904, 124907), (124909, 124910),
   (124912, 124926), (124928, 125124), (125184, 125251), (125259, 125259), (126464, 126467),
   (126469, 126495), (126497, 126498), (126500, 126500), (126503, 126503), (126505, 126514),
   (126516, 126519), (126521, 126521), (126523, 126523), (126530, 126530), (126535, 126535),
   (126537, 126537), (126539, 126539), (126541, 126543), (126545, 126546), (126548, 126548),
   (126551, 126551), (126553, 126553), (126555, 126555), (126557, 126557), (126559, 126559),
   (126561, 126562), (126564, 126564), (126567, 126570), (126572, 126578), (126580, 126583),
   (126585, 126588), (126590, 126590), (126592, 126601), (126603, 126619), (126625, 126627),
   (126629, 126633), (126635, 126651), (131072, 173791), (173824, 177976), (177984, 178205),
   (178208, 183969), (183984, 191456), (194560, 195101), (196608, 201546)]"

definition isdecimal_char :: "nat \<Rightarrow> bool" where
  "isdecimal_char c = (if c < 128 then 48 \<le> c \<and> c \<le> 57 else in_ranges c decimal_ranges)"

definition isalpha_char :: "nat \<Rightarrow> bool" where
  "isalpha_char c =
     (if c < 128 then (65 \<le> c \<and> c \<le> 90) \<or> (97 \<le> c \<and> c \<le> 122)
      else in_ranges c alpha_ranges)"

text \<open>\<^verbatim>\<open>s.isdecimal()\<close>: every character is decimal and there is at least one.\<close>

definition isdecimal :: "pystr \<Rightarrow> bool" where
  "isdecimal s = (s \<noteq> [] \<and> list_all isdecimal_char s)"

text \<open>\<^verbatim>\<open>s.startswith(t)\<close>.\<close>

definition startswith :: "pystr \<Rightarrow> pystr \<Rightarrow> bool" where
  "startswith s t = (take (length t) s = t)"

section \<open>Errors\<close>

text \<open>
  The exceptions the program can raise: an index out of range, a failed \<^verbatim>\<open>assert\<close>, a
  missing dictionary key, and the interpreter's \<^verbatim>\<open>RecursionError\<close> when calls nest deeper
  than its recursion limit.  A function that can raise returns \<open>error + 'a\<close>, with \<open>Inl\<close>
  for the exception.
\<close>

datatype error = IndexError | AssertionError | KeyError | RecursionError

section \<open>Token classifiers (\<^verbatim>\<open>propositions/syntax.py\<close>)\<close>

text \<open>
  \<^verbatim>\<open>string[0]\<close> raises \<^verbatim>\<open>IndexError\<close> on the empty string, before anything else is
  looked at.
\<close>

definition is_variable :: "pystr \<Rightarrow> error + bool" where
  "is_variable string =
     (case string of
        [] \<Rightarrow> Inl IndexError
      | c # cs \<Rightarrow> Inr (112 \<le> c \<and> c \<le> 122 \<and> (length string = 1 \<or> isdecimal cs)))"

definition is_constant :: "pystr \<Rightarrow> bool" where
  "is_constant string = (string = py ''T'' \<or> string = py ''F'')"

definition is_unary :: "pystr \<Rightarrow> bool" where
  "is_unary string = (string = py ''~'')"

definition is_binary :: "pystr \<Rightarrow> bool" where
  "is_binary string =
     (string \<in> {py ''&'', py ''|'', py ''->'', py ''+'', py ''<->'', py ''-&'', py ''-|''})"

section \<open>Formulas (\<^verbatim>\<open>propositions/syntax.py\<close>, class \<^verbatim>\<open>Formula\<close>)\<close>

text \<open>
  The class is frozen and \<^verbatim>\<open>__init__\<close> sets \<^verbatim>\<open>root\<close> alone, \<^verbatim>\<open>root\<close> and \<^verbatim>\<open>first\<close>, or
  \<^verbatim>\<open>root\<close>, \<^verbatim>\<open>first\<close> and \<^verbatim>\<open>second\<close>: an object has one of three shapes, which are the
  three constructors.  An operand a shape does not have is what
  \<^verbatim>\<open>getattr(self, 'first', None)\<close> and \<^verbatim>\<open>getattr(self, 'second', None)\<close> read as \<^verbatim>\<open>None\<close>.
\<close>

datatype Formula =
    Leaf (root: pystr)
  | Unary (root: pystr) Formula
  | Binary (root: pystr) Formula Formula

text \<open>
  \<^verbatim>\<open>Formula(root, first, second)\<close>, with its three branches and their assertions.  The
  test \<^verbatim>\<open>is_variable(root)\<close> comes first and raises on the empty string.
\<close>

definition Formula_init :: "pystr \<Rightarrow> Formula option \<Rightarrow> Formula option \<Rightarrow> error + Formula" where
  "Formula_init r fst_arg snd_arg =
     (case is_variable r of
        Inl e \<Rightarrow> Inl e
      | Inr isvar \<Rightarrow>
          if isvar \<or> is_constant r then
            (if fst_arg = None \<and> snd_arg = None then Inr (Leaf r) else Inl AssertionError)
          else if is_unary r then
            (case (fst_arg, snd_arg) of
               (Some f, None) \<Rightarrow> Inr (Unary r f)
             | _ \<Rightarrow> Inl AssertionError)
          else if \<not> is_binary r then Inl AssertionError
          else
            (case (fst_arg, snd_arg) of
               (Some f, Some s) \<Rightarrow> Inr (Binary r f s)
             | _ \<Rightarrow> Inl AssertionError))"

text \<open>
  The objects that exist at run time are those every node of which passed the
  constructor's assertions: a leaf holds a variable name or a constant, a one-operand
  node holds \<^verbatim>\<open>~\<close>, a two-operand node holds one of the seven binary operators.  The
  methods below branch on the shape; on these objects that is the branch the source
  takes on \<^verbatim>\<open>is_variable(self.root)\<close>, \<^verbatim>\<open>is_constant(self.root)\<close> and \<^verbatim>\<open>is_unary(self.root)\<close>.
\<close>

fun well_formed :: "Formula \<Rightarrow> bool" where
  "well_formed (Leaf r) = (is_variable r = Inr True \<or> is_constant r)"
| "well_formed (Unary r f) = (is_unary r \<and> well_formed f)"
| "well_formed (Binary r f s) = (is_binary r \<and> well_formed f \<and> well_formed s)"

text \<open>\<^verbatim>\<open>__repr__\<close>: the standard (infix) string.\<close>

fun repr :: "Formula \<Rightarrow> pystr" where
  "repr (Leaf r) = r"
| "repr (Unary r f) = py ''~'' @ repr f"
| "repr (Binary r f s) = py ''('' @ repr f @ r @ repr s @ py '')''"

text \<open>\<^verbatim>\<open>__eq__\<close>: two formulas are equal when their standard strings are.\<close>

definition Formula_eq :: "Formula \<Rightarrow> Formula \<Rightarrow> bool" where
  "Formula_eq f g = (repr f = repr g)"

text \<open>\<^verbatim>\<open>variables()\<close>.\<close>

fun variables :: "Formula \<Rightarrow> pystr set" where
  "variables (Leaf r) = (if is_variable r = Inr True then {r} else {})"
| "variables (Unary r f) = variables f"
| "variables (Binary r f s) = variables f \<union> variables s"

text \<open>\<^verbatim>\<open>polish()\<close>: the prefix string.\<close>

fun polish :: "Formula \<Rightarrow> pystr" where
  "polish (Leaf r) = r"
| "polish (Unary r f) = py ''~'' @ polish f"
| "polish (Binary r f s) = r @ polish f @ polish s"

section \<open>The infix parser\<close>

text \<open>
  The loop \<^verbatim>\<open>while i < len(string) and string[i].isdecimal(): i += 1\<close>, returning the final
  \<^verbatim>\<open>i\<close>.
\<close>

function scan_decimals :: "pystr \<Rightarrow> nat \<Rightarrow> nat" where
  "scan_decimals string i =
     (if i < length string \<and> isdecimal_char (string ! i) then scan_decimals string (i + 1)
      else i)"
  by pat_completeness auto
termination
  by (relation "measure (\<lambda>(string, i). length string - i)") auto

declare scan_decimals.simps [simp del]

text \<open>
  The \<^verbatim>\<open>if\<close>/\<^verbatim>\<open>elif\<close> chain that reads the binary operator after the left operand:
  \<^verbatim>\<open>->\<close> first, then a three-character, a two-character and a one-character operator.
  The result is the operator and the rest of the string, or \<open>None\<close> in the \<^verbatim>\<open>else\<close>
  branch.
\<close>

definition scan_operator :: "pystr \<Rightarrow> (pystr \<times> pystr) option" where
  "scan_operator rest =
     (if startswith rest (py ''->'') then Some (py ''->'', drop 2 rest)
      else if length rest \<ge> 3 \<and> is_binary (take 3 rest) then Some (take 3 rest, drop 3 rest)
      else if length rest \<ge> 2 \<and> is_binary (take 2 rest) then Some (take 2 rest, drop 2 rest)
      else if length rest \<ge> 1 \<and> is_binary (take 1 rest) then Some (take 1 rest, drop 1 rest)
      else None)"

text \<open>
  \<^verbatim>\<open>_parse_prefix\<close>.  The result is the pair the source returns: a formula and the
  unparsed suffix, or \<open>None\<close> and an error message.  Every operation of the source that
  can raise (\<^verbatim>\<open>is_variable\<close>, the constructor) is a branch with \<open>Inl\<close>.  This is the
  function as it computes when the interpreter's recursion limit is not reached;
  \<open>parse_prefix_limited\<close> below is the same function under that limit.
\<close>

function parse_prefix :: "pystr \<Rightarrow> error + (Formula option \<times> pystr)" where
  "parse_prefix string =
     (if length string = 0 then Inr (None, py ''unexpected end of input'')
      else
        let char = hd string in
        if is_constant [char] then
          (case Formula_init [char] None None of
             Inl e \<Rightarrow> Inl e
           | Inr f \<Rightarrow> Inr (Some f, drop 1 string))
        else if isalpha_char char then
          (let i = scan_decimals string 1; token = take i string in
           case is_variable token of
             Inl e \<Rightarrow> Inl e
           | Inr isvar \<Rightarrow>
               if isvar then
                 (case Formula_init token None None of
                    Inl e \<Rightarrow> Inl e
                  | Inr f \<Rightarrow> Inr (Some f, drop i string))
               else Inr (None, py ''invalid variable name: '' @ token))
        else if char = 126 then
          (case parse_prefix (drop 1 string) of
             Inl e \<Rightarrow> Inl e
           | Inr (None, rest) \<Rightarrow> Inr (None, rest)
           | Inr (Some inner, rest) \<Rightarrow>
               (case Formula_init (py ''~'') (Some inner) None of
                  Inl e \<Rightarrow> Inl e
                | Inr f \<Rightarrow> Inr (Some f, rest)))
        else if char = 40 then
          (case parse_prefix (drop 1 string) of
             Inl e \<Rightarrow> Inl e
           | Inr (None, rest) \<Rightarrow> Inr (None, rest)
           | Inr (Some left, rest) \<Rightarrow>
               (case scan_operator rest of
                  None \<Rightarrow> Inr (None, py ''expected binary operator'')
                | Some (op, rest1) \<Rightarrow>
                    (case parse_prefix rest1 of
                       Inl e \<Rightarrow> Inl e
                     | Inr (None, rest2) \<Rightarrow> Inr (None, rest2)
                     | Inr (Some right, rest2) \<Rightarrow>
                         if \<not> (length rest2 > 0 \<and> hd rest2 = 41) then
                           Inr (None, py ''expected '' @ [39, 41, 39])
                         else
                           (case Formula_init op (Some left) (Some right) of
                              Inl e \<Rightarrow> Inl e
                            | Inr f \<Rightarrow> Inr (Some f, drop 1 rest2)))))
        else Inr (None, py ''unexpected token: '' @ [char]))"
  by pat_completeness auto

text \<open>
  The second operand is parsed from what the first call left over, so termination needs
  the fact that a successful call returns a strictly shorter string.
\<close>

lemma scan_decimals_ge: "i \<le> scan_decimals string i"
proof (induction string i rule: scan_decimals.induct)
  case (1 string i)
  show ?case
  proof (cases "i < length string \<and> isdecimal_char (string ! i)")
    case True
    then have "scan_decimals string i = scan_decimals string (i + 1)"
      by (subst scan_decimals.simps) simp
    with 1 True show ?thesis by simp
  next
    case False
    then have "scan_decimals string i = i"
      by (subst scan_decimals.simps) auto
    then show ?thesis by simp
  qed
qed

lemma scan_operator_shorter:
  "scan_operator r = Some (op, r1) \<Longrightarrow> length r1 < length r"
  by (cases r) (auto simp: scan_operator_def startswith_def split: if_splits)

lemma is_constant_single: "is_constant [c] = (c = 84 \<or> c = 70)"
  by (auto simp: is_constant_def)

lemma isalpha_char_ascii:
  "c < 128 \<Longrightarrow> isalpha_char c = ((65 \<le> c \<and> c \<le> 90) \<or> (97 \<le> c \<and> c \<le> 122))"
  by (simp add: isalpha_char_def)

lemma isdecimal_char_ascii: "c < 128 \<Longrightarrow> isdecimal_char c = (48 \<le> c \<and> c \<le> 57)"
  by (simp add: isdecimal_char_def)

lemma parse_prefix_shorter:
  "parse_prefix_dom s \<Longrightarrow> parse_prefix s = Inr (Some f, rest) \<Longrightarrow> length rest < length s"
proof (induction s arbitrary: f rest rule: parse_prefix.pinduct)
  case (1 string)
  from "1.prems" have ne: "string \<noteq> []"
    by (auto simp: parse_prefix.psimps[OF "1.hyps"])
  have sd: "1 \<le> scan_decimals string 1" by (rule scan_decimals_ge)
  show ?case
  proof (cases "hd string = 126 \<or> hd string = 40")
    case False
    with "1.prems" ne sd show ?thesis
      by (auto simp: parse_prefix.psimps[OF "1.hyps"] Let_def split: if_splits sum.splits)
  next
    case True
    then show ?thesis
    proof
      assume c: "hd string = 126"
      with "1.prems" ne obtain inner where
        "parse_prefix (drop 1 string) = Inr (Some inner, rest)"
        "\<not> is_constant [hd string]" "\<not> isalpha_char (hd string)"
        by (auto simp: parse_prefix.psimps[OF "1.hyps"] Let_def is_constant_single
            isalpha_char_ascii split: if_splits sum.splits option.splits prod.splits)
      with "1.IH"(1)[OF _ refl, of inner rest] ne c show ?thesis by auto
    next
      assume c: "hd string = 40"
      with "1.prems" ne obtain left r0 op r1 right r2 where
        *: "parse_prefix (drop 1 string) = Inr (Some left, r0)"
        "\<not> is_constant [hd string]" "\<not> isalpha_char (hd string)"
        "scan_operator r0 = Some (op, r1)" "parse_prefix r1 = Inr (Some right, r2)"
        "rest = drop 1 r2"
        by (auto simp: parse_prefix.psimps[OF "1.hyps"] Let_def is_constant_single
            isalpha_char_ascii split: if_splits sum.splits option.splits prod.splits)
      from "1.IH"(2)[OF _ refl, of left r0] * ne c
      have a: "length r0 < length (drop 1 string)" by auto
      from "1.IH"(3)[OF _ refl _ _ _ _ *(1) refl refl *(4) refl, of right r2] * ne c
      have b: "length r2 < length r1" by auto
      from scan_operator_shorter[OF *(4)] a b *(6) show ?thesis by auto
    qed
  qed
qed

termination parse_prefix
proof (relation "measure length", goal_cases)
  case 1
  show ?case by simp
next
  case (2 string x)
  then show ?case by (cases string) auto
next
  case (3 string x)
  then show ?case by (cases string) auto
next
  case (4 string x b xa y x2 x2a xb ya)
  then have "length y < length (drop 1 string)"
    using parse_prefix_shorter[of "drop 1 string" x2 y] by auto
  moreover have "length ya < length y"
    using 4 scan_operator_shorter[of y xb ya] by auto
  ultimately show ?case by auto
qed

declare parse_prefix.simps [simp del]

text \<open>\<^verbatim>\<open>is_formula\<close> and \<^verbatim>\<open>parse\<close>.\<close>

definition is_formula :: "pystr \<Rightarrow> error + bool" where
  "is_formula string =
     (case parse_prefix string of
        Inl e \<Rightarrow> Inl e
      | Inr (parsed, rest) \<Rightarrow> Inr (parsed \<noteq> None \<and> rest = []))"

definition parse :: "pystr \<Rightarrow> error + Formula" where
  "parse string =
     (case is_formula string of
        Inl e \<Rightarrow> Inl e
      | Inr ok \<Rightarrow>
          if \<not> ok then Inl AssertionError
          else
            (case parse_prefix string of
               Inl e \<Rightarrow> Inl e
             | Inr (Some formula, rest) \<Rightarrow> if rest = [] then Inr formula else Inl AssertionError
             | Inr (None, rest) \<Rightarrow> Inl AssertionError))"

text \<open>
  \<^verbatim>\<open>_parse_prefix\<close> under the recursion limit.  \<open>limit\<close> is the number of nested activations
  of \<^verbatim>\<open>_parse_prefix\<close> that the interpreter's limit leaves room for at the call: it is at
  most \<^verbatim>\<open>sys.getrecursionlimit()\<close>, 1000 unless it has been changed, and less by the frames
  already on the stack.  Every activation takes one of them, the recursive calls run with
  one less, and a call with none left raises \<^verbatim>\<open>RecursionError\<close>, which nothing in the
  source catches.  The body is that of \<open>parse_prefix\<close>.
\<close>

fun parse_prefix_limited :: "nat \<Rightarrow> pystr \<Rightarrow> error + (Formula option \<times> pystr)" where
  "parse_prefix_limited 0 string = Inl RecursionError"
| "parse_prefix_limited (Suc limit) string =
     (if length string = 0 then Inr (None, py ''unexpected end of input'')
      else
        let char = hd string in
        if is_constant [char] then
          (case Formula_init [char] None None of
             Inl e \<Rightarrow> Inl e
           | Inr f \<Rightarrow> Inr (Some f, drop 1 string))
        else if isalpha_char char then
          (let i = scan_decimals string 1; token = take i string in
           case is_variable token of
             Inl e \<Rightarrow> Inl e
           | Inr isvar \<Rightarrow>
               if isvar then
                 (case Formula_init token None None of
                    Inl e \<Rightarrow> Inl e
                  | Inr f \<Rightarrow> Inr (Some f, drop i string))
               else Inr (None, py ''invalid variable name: '' @ token))
        else if char = 126 then
          (case parse_prefix_limited limit (drop 1 string) of
             Inl e \<Rightarrow> Inl e
           | Inr (None, rest) \<Rightarrow> Inr (None, rest)
           | Inr (Some inner, rest) \<Rightarrow>
               (case Formula_init (py ''~'') (Some inner) None of
                  Inl e \<Rightarrow> Inl e
                | Inr f \<Rightarrow> Inr (Some f, rest)))
        else if char = 40 then
          (case parse_prefix_limited limit (drop 1 string) of
             Inl e \<Rightarrow> Inl e
           | Inr (None, rest) \<Rightarrow> Inr (None, rest)
           | Inr (Some left, rest) \<Rightarrow>
               (case scan_operator rest of
                  None \<Rightarrow> Inr (None, py ''expected binary operator'')
                | Some (op, rest1) \<Rightarrow>
                    (case parse_prefix_limited limit rest1 of
                       Inl e \<Rightarrow> Inl e
                     | Inr (None, rest2) \<Rightarrow> Inr (None, rest2)
                     | Inr (Some right, rest2) \<Rightarrow>
                         if \<not> (length rest2 > 0 \<and> hd rest2 = 41) then
                           Inr (None, py ''expected '' @ [39, 41, 39])
                         else
                           (case Formula_init op (Some left) (Some right) of
                              Inl e \<Rightarrow> Inl e
                            | Inr f \<Rightarrow> Inr (Some f, drop 1 rest2)))))
        else Inr (None, py ''unexpected token: '' @ [char]))"

declare parse_prefix_limited.simps [simp del]

text \<open>\<^verbatim>\<open>is_formula\<close>, with \<open>limit\<close> activations left for its call of \<^verbatim>\<open>_parse_prefix\<close>.\<close>

definition is_formula_limited :: "nat \<Rightarrow> pystr \<Rightarrow> error + bool" where
  "is_formula_limited limit string =
     (case parse_prefix_limited limit string of
        Inl e \<Rightarrow> Inl e
      | Inr (parsed, rest) \<Rightarrow> Inr (parsed \<noteq> None \<and> rest = []))"

section \<open>The Polish parser\<close>

text \<open>
  \<^verbatim>\<open>_parse_polish_prefix\<close>, branch by branch in the order of the source: \<^verbatim>\<open>->\<close>, a constant,
  \<^verbatim>\<open>~\<close>, one of \<^verbatim>\<open>&\<close> and \<^verbatim>\<open>|\<close>, a letter, anything else.
\<close>

function parse_polish_prefix :: "pystr \<Rightarrow> error + (Formula option \<times> pystr)" where
  "parse_polish_prefix string =
     (if length string = 0 then Inr (None, py ''unexpected end of input'')
      else if startswith string (py ''->'') then
        (case parse_polish_prefix (drop 2 string) of
           Inl e \<Rightarrow> Inl e
         | Inr (None, rest) \<Rightarrow> Inr (None, rest)
         | Inr (Some left, rest) \<Rightarrow>
             (case parse_polish_prefix rest of
                Inl e \<Rightarrow> Inl e
              | Inr (None, rest1) \<Rightarrow> Inr (None, rest1)
              | Inr (Some right, rest1) \<Rightarrow>
                  (case Formula_init (py ''->'') (Some left) (Some right) of
                     Inl e \<Rightarrow> Inl e
                   | Inr f \<Rightarrow> Inr (Some f, rest1))))
      else
        let char = hd string in
        if is_constant [char] then
          (case Formula_init [char] None None of
             Inl e \<Rightarrow> Inl e
           | Inr f \<Rightarrow> Inr (Some f, drop 1 string))
        else if char = 126 then
          (case parse_polish_prefix (drop 1 string) of
             Inl e \<Rightarrow> Inl e
           | Inr (None, rest) \<Rightarrow> Inr (None, rest)
           | Inr (Some inner, rest) \<Rightarrow>
               (case Formula_init (py ''~'') (Some inner) None of
                  Inl e \<Rightarrow> Inl e
                | Inr f \<Rightarrow> Inr (Some f, rest)))
        else if char \<in> {38, 124} then
          (case parse_polish_prefix (drop 1 string) of
             Inl e \<Rightarrow> Inl e
           | Inr (None, rest) \<Rightarrow> Inr (None, rest)
           | Inr (Some left, rest) \<Rightarrow>
               (case parse_polish_prefix rest of
                  Inl e \<Rightarrow> Inl e
                | Inr (None, rest1) \<Rightarrow> Inr (None, rest1)
                | Inr (Some right, rest1) \<Rightarrow>
                    (case Formula_init [char] (Some left) (Some right) of
                       Inl e \<Rightarrow> Inl e
                     | Inr f \<Rightarrow> Inr (Some f, rest1))))
        else if isalpha_char char then
          (let i = scan_decimals string 1; token = take i string in
           case is_variable token of
             Inl e \<Rightarrow> Inl e
           | Inr isvar \<Rightarrow>
               if isvar then
                 (case Formula_init token None None of
                    Inl e \<Rightarrow> Inl e
                  | Inr f \<Rightarrow> Inr (Some f, drop i string))
               else Inr (None, py ''invalid variable name: '' @ token))
        else Inr (None, py ''unexpected token: '' @ [char]))"
  by pat_completeness auto

lemma parse_polish_prefix_shorter:
  "parse_polish_prefix_dom s \<Longrightarrow> parse_polish_prefix s = Inr (Some f, rest) \<Longrightarrow>
   length rest < length s"
proof (induction s arbitrary: f rest rule: parse_polish_prefix.pinduct)
  case (1 string)
  from "1.prems" have ne: "string \<noteq> []"
    by (auto simp: parse_polish_prefix.psimps[OF "1.hyps"])
  have sd: "1 \<le> scan_decimals string 1" by (rule scan_decimals_ge)
  show ?case
  proof (cases "startswith string (py ''->'')")
    case True
    with "1.prems" ne obtain left r0 right where
      *: "parse_polish_prefix (drop 2 string) = Inr (Some left, r0)"
         "parse_polish_prefix r0 = Inr (Some right, rest)"
      by (auto simp: parse_polish_prefix.psimps[OF "1.hyps"] Let_def
            split: if_splits sum.splits option.splits prod.splits)
    from "1.IH"(1)[OF _ True *(1)] ne have a: "length r0 < length (drop 2 string)" by auto
    from "1.IH"(2)[OF _ True *(1) refl refl *(2)] ne have "length rest < length r0" by auto
    with a show ?thesis by auto
  next
    case False
    note nsw = this
    show ?thesis
    proof (cases "hd string = 126 \<or> hd string \<in> {38, 124}")
      case False
      with "1.prems" ne sd nsw show ?thesis
        by (auto simp: parse_polish_prefix.psimps[OF "1.hyps"] Let_def split: if_splits sum.splits)
    next
      case True
      then show ?thesis
      proof
        assume c: "hd string = 126"
        with "1.prems" ne nsw obtain inner where
          *: "parse_polish_prefix (drop 1 string) = Inr (Some inner, rest)"
          "\<not> is_constant [hd string]"
          by (auto simp: parse_polish_prefix.psimps[OF "1.hyps"] Let_def is_constant_single
              split: if_splits sum.splits option.splits prod.splits)
        from "1.IH"(3)[OF _ nsw refl *(2) c *(1)] ne show ?thesis by auto
      next
        assume c: "hd string \<in> {38, 124}"
        then have c': "hd string \<noteq> 126" by auto
        with c "1.prems" ne nsw obtain left r0 right where
          *: "parse_polish_prefix (drop 1 string) = Inr (Some left, r0)"
          "\<not> is_constant [hd string]"
          "parse_polish_prefix r0 = Inr (Some right, rest)"
          by (auto simp: parse_polish_prefix.psimps[OF "1.hyps"] Let_def is_constant_single
              split: if_splits sum.splits option.splits prod.splits)
        from "1.IH"(4)[OF _ nsw refl *(2) c' c *(1)] ne
        have a: "length r0 < length (drop 1 string)" by auto
        from "1.IH"(5)[OF _ nsw refl *(2) c' c *(1) refl refl *(3)] ne
        have "length rest < length r0" by auto
        with a show ?thesis by auto
      qed
    qed
  qed
qed

termination parse_polish_prefix
proof (relation "measure length", goal_cases)
  case 1
  show ?case by simp
next
  case (2 string)
  then show ?case by (cases string) auto
next
  case (3 string b xa y x2)
  then show ?case
    using parse_polish_prefix_shorter[of "drop 2 string" x2 y] by auto
next
  case (4 string x)
  then show ?case by (cases string) auto
next
  case (5 string x)
  then show ?case by (cases string) auto
next
  case (6 string x b xa y x2)
  then show ?case
    using parse_polish_prefix_shorter[of "drop 1 string" x2 y] by auto
qed

declare parse_polish_prefix.simps [simp del]

text \<open>\<^verbatim>\<open>parse_polish\<close>.\<close>

definition parse_polish :: "pystr \<Rightarrow> error + Formula" where
  "parse_polish string =
     (case parse_polish_prefix string of
        Inl e \<Rightarrow> Inl e
      | Inr (Some parsed, rest) \<Rightarrow> if rest = [] then Inr parsed else Inl AssertionError
      | Inr (None, rest) \<Rightarrow> Inl AssertionError)"

section \<open>Substitution\<close>

text \<open>
  A substitution map is a dictionary from strings to formulas, modelled as an association
  list in insertion order; \<open>map_of\<close> is the lookup.  \<open>assert_variable_keys\<close> is the loop
  \<^verbatim>\<open>for variable in substitution_map: assert is_variable(variable)\<close>.
\<close>

fun assert_variable_keys :: "(pystr \<times> 'a) list \<Rightarrow> error + unit" where
  "assert_variable_keys [] = Inr ()"
| "assert_variable_keys ((variable, x) # rest) =
     (case is_variable variable of
        Inl e \<Rightarrow> Inl e
      | Inr isvar \<Rightarrow> if isvar then assert_variable_keys rest else Inl AssertionError)"

text \<open>
  \<^verbatim>\<open>substitute_variables\<close>.  A leaf that holds a variable name is looked up with
  \<^verbatim>\<open>substitution_map.get(self.root, self)\<close>, a leaf that holds a constant is returned as it
  is, and every other node is rebuilt by the constructor from its substituted operands.
\<close>

fun substitute_variables :: "Formula \<Rightarrow> (pystr \<times> Formula) list \<Rightarrow> error + Formula" where
  "substitute_variables (Leaf r) substitution_map =
     (case assert_variable_keys substitution_map of
        Inl e \<Rightarrow> Inl e
      | Inr u \<Rightarrow>
          if is_variable r = Inr True then
            Inr (case map_of substitution_map r of None \<Rightarrow> Leaf r | Some g \<Rightarrow> g)
          else if is_constant r then Inr (Leaf r)
          else Formula_init r None None)"
| "substitute_variables (Unary r f) substitution_map =
     (case assert_variable_keys substitution_map of
        Inl e \<Rightarrow> Inl e
      | Inr u \<Rightarrow>
          (case substitute_variables f substitution_map of
             Inl e \<Rightarrow> Inl e
           | Inr new_first \<Rightarrow> Formula_init r (Some new_first) None))"
| "substitute_variables (Binary r f s) substitution_map =
     (case assert_variable_keys substitution_map of
        Inl e \<Rightarrow> Inl e
      | Inr u \<Rightarrow>
          (case substitute_variables f substitution_map of
             Inl e \<Rightarrow> Inl e
           | Inr new_first \<Rightarrow>
               (case substitute_variables s substitution_map of
                  Inl e \<Rightarrow> Inl e
                | Inr new_second \<Rightarrow> Formula_init r (Some new_first) (Some new_second))))"

text \<open>
  The two assertions \<^verbatim>\<open>substitute_operators\<close> makes on every key of its map: the key is a
  constant or an operator, and the variables of \<^verbatim>\<open>substitution_map[operator]\<close> are among
  \<^verbatim>\<open>p\<close> and \<^verbatim>\<open>q\<close>.
\<close>

definition operator_map_ok :: "(pystr \<times> Formula) list \<Rightarrow> bool" where
  "operator_map_ok substitution_map =
     list_all
       (\<lambda>operator.
          (is_constant operator \<or> is_unary operator \<or> is_binary operator) \<and>
          (case map_of substitution_map operator of
             None \<Rightarrow> False
           | Some template \<Rightarrow> variables template \<subseteq> {py ''p'', py ''q''}))
       (map fst substitution_map)"

text \<open>
  \<^verbatim>\<open>substitute_operators\<close>.  The operands are rewritten first; then a node whose root is not
  a key is rebuilt by the constructor, and a node whose root is a key becomes its template
  with \<^verbatim>\<open>p\<close> bound to the rewritten first operand and \<^verbatim>\<open>q\<close> to the rewritten second one,
  for the operands the node has.
\<close>

fun substitute_operators :: "Formula \<Rightarrow> (pystr \<times> Formula) list \<Rightarrow> error + Formula" where
  "substitute_operators (Leaf r) substitution_map =
     (if \<not> operator_map_ok substitution_map then Inl AssertionError
      else if is_variable r = Inr True then Inr (Leaf r)
      else
        (case map_of substitution_map r of
           None \<Rightarrow> Formula_init r None None
         | Some template \<Rightarrow> substitute_variables template []))"
| "substitute_operators (Unary r f) substitution_map =
     (if \<not> operator_map_ok substitution_map then Inl AssertionError
      else
        (case substitute_operators f substitution_map of
           Inl e \<Rightarrow> Inl e
         | Inr new_first \<Rightarrow>
             (case map_of substitution_map r of
                None \<Rightarrow> Formula_init r (Some new_first) None
              | Some template \<Rightarrow> substitute_variables template [(py ''p'', new_first)])))"
| "substitute_operators (Binary r f s) substitution_map =
     (if \<not> operator_map_ok substitution_map then Inl AssertionError
      else
        (case substitute_operators f substitution_map of
           Inl e \<Rightarrow> Inl e
         | Inr new_first \<Rightarrow>
             (case substitute_operators s substitution_map of
                Inl e \<Rightarrow> Inl e
              | Inr new_second \<Rightarrow>
                  (case map_of substitution_map r of
                     None \<Rightarrow> Formula_init r (Some new_first) (Some new_second)
                   | Some template \<Rightarrow>
                       substitute_variables template
                         [(py ''p'', new_first), (py ''q'', new_second)]))))"

section \<open>Models and evaluation (\<^verbatim>\<open>propositions/semantics.py\<close>)\<close>

text \<open>
  A model is a dictionary from variable names to truth values: an association list in
  insertion order, \<open>map_of\<close> for lookup and \<open>AList.update\<close> for \<^verbatim>\<open>m[v] = b\<close> (the value of an
  existing key is replaced in place, a new key is added at the end).
\<close>

type_synonym Model = "(pystr \<times> bool) list"

fun is_model :: "Model \<Rightarrow> error + bool" where
  "is_model [] = Inr True"
| "is_model ((key, b) # rest) =
     (case is_variable key of
        Inl e \<Rightarrow> Inl e
      | Inr isvar \<Rightarrow> if \<not> isvar then Inr False else is_model rest)"

text \<open>\<^verbatim>\<open>variables(model)\<close> of \<^verbatim>\<open>semantics.py\<close>: the key set, after \<^verbatim>\<open>assert is_model(model)\<close>.\<close>

definition model_variables :: "Model \<Rightarrow> error + pystr set" where
  "model_variables model =
     (case is_model model of
        Inl e \<Rightarrow> Inl e
      | Inr ok \<Rightarrow> if ok then Inr (set (map fst model)) else Inl AssertionError)"

text \<open>\<^verbatim>\<open>model[v]\<close>.\<close>

definition lookup :: "Model \<Rightarrow> pystr \<Rightarrow> error + bool" where
  "lookup model v = (case map_of model v of None \<Rightarrow> Inl KeyError | Some b \<Rightarrow> Inr b)"

text \<open>
  \<^verbatim>\<open>evaluate\<close>.  The two assertions are made at every call, the recursive ones included.
  \<^verbatim>\<open>and\<close> and \<^verbatim>\<open>or\<close> do not evaluate their second operand when the first one decides.
\<close>

fun evaluate :: "Formula \<Rightarrow> Model \<Rightarrow> error + bool" where
  "evaluate formula model =
     (case is_model model of
        Inl e \<Rightarrow> Inl e
      | Inr ok \<Rightarrow>
          if \<not> ok then Inl AssertionError
          else
            (case model_variables model of
               Inl e \<Rightarrow> Inl e
             | Inr keys \<Rightarrow>
                 if \<not> variables formula \<subseteq> keys then Inl AssertionError
                 else
                   (case formula of
                      Leaf r \<Rightarrow>
                        if is_variable r = Inr True then lookup model r
                        else Inr (r = py ''T'')
                    | Unary r f \<Rightarrow>
                        (case evaluate f model of Inl e \<Rightarrow> Inl e | Inr a \<Rightarrow> Inr (\<not> a))
                    | Binary r f s \<Rightarrow>
                        if \<not> is_binary r then Inl AssertionError
                        else if r = py ''&'' then
                          (case evaluate f model of
                             Inl e \<Rightarrow> Inl e
                           | Inr a \<Rightarrow> if a then evaluate s model else Inr False)
                        else if r = py ''|'' then
                          (case evaluate f model of
                             Inl e \<Rightarrow> Inl e
                           | Inr a \<Rightarrow> if a then Inr True else evaluate s model)
                        else if r = py ''->'' then
                          (case evaluate f model of
                             Inl e \<Rightarrow> Inl e
                           | Inr a \<Rightarrow> if \<not> a then Inr True else evaluate s model)
                        else if r = py ''+'' then
                          (case evaluate f model of
                             Inl e \<Rightarrow> Inl e
                           | Inr a \<Rightarrow>
                               (case evaluate s model of
                                  Inl e \<Rightarrow> Inl e
                                | Inr b \<Rightarrow> Inr (a \<noteq> b)))
                        else if r = py ''<->'' then
                          (case evaluate f model of
                             Inl e \<Rightarrow> Inl e
                           | Inr a \<Rightarrow>
                               (case evaluate s model of
                                  Inl e \<Rightarrow> Inl e
                                | Inr b \<Rightarrow> Inr (a = b)))
                        else if r = py ''-&'' then
                          (case evaluate f model of
                             Inl e \<Rightarrow> Inl e
                           | Inr a \<Rightarrow>
                               if a then
                                 (case evaluate s model of
                                    Inl e \<Rightarrow> Inl e
                                  | Inr b \<Rightarrow> Inr (\<not> b))
                               else Inr True)
                        else if r = py ''-|'' then
                          (case evaluate f model of
                             Inl e \<Rightarrow> Inl e
                           | Inr a \<Rightarrow>
                               if a then Inr False
                               else
                                 (case evaluate s model of
                                    Inl e \<Rightarrow> Inl e
                                  | Inr b \<Rightarrow> Inr (\<not> b)))
                        else Inl AssertionError)))"

declare evaluate.simps [simp del]

text \<open>
  \<^verbatim>\<open>all_models\<close>.  \<open>assert_variables\<close> is the loop \<^verbatim>\<open>for v in variables: assert is_variable(v)\<close>,
  \<open>build_model\<close> the inner loop over \<^verbatim>\<open>enumerate(variables)\<close> that fills the dictionary of
  one \<^verbatim>\<open>mask\<close> (here \<open>msk\<close>), and the generator is the list of the dictionaries it yields.
\<close>

fun assert_variables :: "pystr list \<Rightarrow> error + unit" where
  "assert_variables [] = Inr ()"
| "assert_variables (v # rest) =
     (case is_variable v of
        Inl e \<Rightarrow> Inl e
      | Inr isvar \<Rightarrow> if isvar then assert_variables rest else Inl AssertionError)"

fun build_model :: "nat \<Rightarrow> nat \<Rightarrow> nat \<Rightarrow> pystr list \<Rightarrow> Model \<Rightarrow> Model" where
  "build_model msk n i [] m = m"
| "build_model msk n i (v # rest) m =
     build_model msk n (i + 1) rest
       (AList.update v ((drop_bit (n - 1 - i) msk) AND 1 \<noteq> 0) m)"

definition all_models :: "pystr list \<Rightarrow> error + Model list" where
  "all_models vars =
     (case assert_variables vars of
        Inl e \<Rightarrow> Inl e
      | Inr u \<Rightarrow>
          (let n = length vars
           in Inr (map (\<lambda>msk. build_model msk n 0 vars []) [0..<2 ^ n])))"

text \<open>\<^verbatim>\<open>truth_values\<close>: the list of the values the generator yields.\<close>

fun truth_values :: "Formula \<Rightarrow> Model list \<Rightarrow> error + bool list" where
  "truth_values formula [] = Inr []"
| "truth_values formula (m # models) =
     (case evaluate formula m of
        Inl e \<Rightarrow> Inl e
      | Inr b \<Rightarrow>
          (case truth_values formula models of
             Inl e \<Rightarrow> Inl e
           | Inr bs \<Rightarrow> Inr (b # bs)))"

section \<open>Synthesis\<close>

text \<open>
  \<open>literal model v\<close> is \<^verbatim>\<open>Formula(v) if model[v] else Formula('~', Formula(v))\<close>, and
  \<open>negated_literal model v\<close> is \<^verbatim>\<open>Formula('~', Formula(v)) if model[v] else Formula(v)\<close>.
\<close>

definition negate :: "pystr \<Rightarrow> error + Formula" where
  "negate v =
     (case Formula_init v None None of
        Inl e \<Rightarrow> Inl e
      | Inr x \<Rightarrow> Formula_init (py ''~'') (Some x) None)"

definition literal :: "Model \<Rightarrow> pystr \<Rightarrow> error + Formula" where
  "literal model v =
     (case lookup model v of
        Inl e \<Rightarrow> Inl e
      | Inr b \<Rightarrow> if b then Formula_init v None None else negate v)"

definition negated_literal :: "Model \<Rightarrow> pystr \<Rightarrow> error + Formula" where
  "negated_literal model v =
     (case lookup model v of
        Inl e \<Rightarrow> Inl e
      | Inr b \<Rightarrow> if b then negate v else Formula_init v None None)"

text \<open>
  The loop \<^verbatim>\<open>for v in vars_sorted[1:]\<close> of \<^verbatim>\<open>_synthesize_for_model\<close> and of
  \<^verbatim>\<open>_synthesize_for_all_except_model\<close>: \<open>lit\<close> builds the literal of a name, \<open>op\<close> is the
  operator that joins it to what has been built so far.
\<close>

fun join_literals ::
  "pystr \<Rightarrow> (pystr \<Rightarrow> error + Formula) \<Rightarrow> pystr list \<Rightarrow> Formula \<Rightarrow> error + Formula" where
  "join_literals op lit [] acc = Inr acc"
| "join_literals op lit (v # rest) acc =
     (case lit v of
        Inl e \<Rightarrow> Inl e
      | Inr l \<Rightarrow>
          (case Formula_init op (Some acc) (Some l) of
             Inl e \<Rightarrow> Inl e
           | Inr acc' \<Rightarrow> join_literals op lit rest acc'))"

definition synthesize_for_model :: "Model \<Rightarrow> error + Formula" where
  "synthesize_for_model model =
     (case is_model model of
        Inl e \<Rightarrow> Inl e
      | Inr ok \<Rightarrow>
          if \<not> ok then Inl AssertionError
          else if \<not> length (map fst model) > 0 then Inl AssertionError
          else
            (let vars_sorted = sort (map fst model); v0 = hd vars_sorted
             in case literal model v0 of
                  Inl e \<Rightarrow> Inl e
                | Inr conj0 \<Rightarrow> join_literals (py ''&'') (literal model) (tl vars_sorted) conj0))"

definition synthesize_for_all_except_model :: "Model \<Rightarrow> error + Formula" where
  "synthesize_for_all_except_model model =
     (case is_model model of
        Inl e \<Rightarrow> Inl e
      | Inr ok \<Rightarrow>
          if \<not> ok then Inl AssertionError
          else if \<not> length (map fst model) > 0 then Inl AssertionError
          else
            (let vars_sorted = sort (map fst model); v0 = hd vars_sorted
             in case negated_literal model v0 of
                  Inl e \<Rightarrow> Inl e
                | Inr disj0 \<Rightarrow>
                    join_literals (py ''|'') (negated_literal model) (tl vars_sorted) disj0))"

text \<open>
  The loop \<^verbatim>\<open>for m in true_models[1:]\<close> of \<^verbatim>\<open>synthesize\<close> and \<^verbatim>\<open>for m in false_models[1:]\<close> of
  \<^verbatim>\<open>synthesize_cnf\<close>: \<open>clause\<close> builds the clause of a model, \<open>op\<close> joins it to what has been
  built so far.
\<close>

fun join_clauses ::
  "pystr \<Rightarrow> (Model \<Rightarrow> error + Formula) \<Rightarrow> Model list \<Rightarrow> Formula \<Rightarrow> error + Formula" where
  "join_clauses op clause [] acc = Inr acc"
| "join_clauses op clause (m # rest) acc =
     (case clause m of
        Inl e \<Rightarrow> Inl e
      | Inr c \<Rightarrow>
          (case Formula_init op (Some acc) (Some c) of
             Inl e \<Rightarrow> Inl e
           | Inr acc' \<Rightarrow> join_clauses op clause rest acc'))"

text \<open>
  \<^verbatim>\<open>synthesize\<close> and \<^verbatim>\<open>synthesize_cnf\<close>.  \<open>select\<close> is the comprehension
  \<^verbatim>\<open>[models[i] for i, val in enumerate(values_list) if val]\<close> (for \<open>want = True\<close>) and
  \<^verbatim>\<open>[models[i] for i, val in enumerate(values_list) if not val]\<close> (for \<open>want = False\<close>); the
  assertion before it makes the two lists equally long.
\<close>

definition select :: "bool \<Rightarrow> Model list \<Rightarrow> bool list \<Rightarrow> Model list" where
  "select want models values_list =
     map (\<lambda>(i, val). models ! i) (filter (\<lambda>(i, val). val = want) (enumerate 0 values_list))"

definition synthesize :: "pystr list \<Rightarrow> bool list \<Rightarrow> error + Formula" where
  "synthesize vars vals =
     (if \<not> length vars > 0 then Inl AssertionError
      else
        (case assert_variables vars of
           Inl e \<Rightarrow> Inl e
         | Inr u \<Rightarrow>
             (case all_models vars of
                Inl e \<Rightarrow> Inl e
              | Inr models \<Rightarrow>
                  if length vals \<noteq> length models then Inl AssertionError
                  else
                    (let true_models = select True models vals
                     in if length true_models = 0 then
                          (let p = hd vars
                           in case Formula_init p None None of
                                Inl e \<Rightarrow> Inl e
                              | Inr x \<Rightarrow>
                                  (case negate p of
                                     Inl e \<Rightarrow> Inl e
                                   | Inr nx \<Rightarrow> Formula_init (py ''&'') (Some x) (Some nx)))
                        else
                          (case synthesize_for_model (hd true_models) of
                             Inl e \<Rightarrow> Inl e
                           | Inr dnf \<Rightarrow>
                               join_clauses (py ''|'') synthesize_for_model
                                 (tl true_models) dnf)))))"

definition synthesize_cnf :: "pystr list \<Rightarrow> bool list \<Rightarrow> error + Formula" where
  "synthesize_cnf vars vals =
     (if \<not> length vars > 0 then Inl AssertionError
      else
        (case assert_variables vars of
           Inl e \<Rightarrow> Inl e
         | Inr u \<Rightarrow>
             (case all_models vars of
                Inl e \<Rightarrow> Inl e
              | Inr models \<Rightarrow>
                  if length vals \<noteq> length models then Inl AssertionError
                  else
                    (let false_models = select False models vals
                     in if length false_models = 0 then
                          (let p = hd vars
                           in case Formula_init p None None of
                                Inl e \<Rightarrow> Inl e
                              | Inr x \<Rightarrow>
                                  (case negate p of
                                     Inl e \<Rightarrow> Inl e
                                   | Inr nx \<Rightarrow> Formula_init (py ''|'') (Some x) (Some nx)))
                        else
                          (case synthesize_for_all_except_model (hd false_models) of
                             Inl e \<Rightarrow> Inl e
                           | Inr cnf \<Rightarrow>
                               join_clauses (py ''&'') synthesize_for_all_except_model
                                 (tl false_models) cnf)))))"

section \<open>Reference notions from the specification\<close>

text \<open>
  The pattern \<^verbatim>\<open>[p-z][0-9]*\<close> of the specification: a letter from \<^verbatim>\<open>p\<close> to \<^verbatim>\<open>z\<close>, then
  only the digits \<^verbatim>\<open>0\<close> to \<^verbatim>\<open>9\<close>.
\<close>

definition variable_pattern :: "pystr \<Rightarrow> bool" where
  "variable_pattern s =
     (case s of
        [] \<Rightarrow> False
      | c # ds \<Rightarrow> (112 \<le> c \<and> c \<le> 122) \<and> list_all (\<lambda>d. 48 \<le> d \<and> d \<le> 57) ds)"

text \<open>
  The textbook truth tables of the seven binary operators (conjunction, disjunction,
  implication, exclusive or, bi-implication, NAND, NOR), and the value they give a formula
  under a valuation of its variables.
\<close>

definition truth_table :: "pystr \<Rightarrow> bool \<Rightarrow> bool \<Rightarrow> bool" where
  "truth_table op a b =
     (if op = py ''&'' then a \<and> b
      else if op = py ''|'' then a \<or> b
      else if op = py ''->'' then (a \<longrightarrow> b)
      else if op = py ''+'' then a \<noteq> b
      else if op = py ''<->'' then a = b
      else if op = py ''-&'' then \<not> (a \<and> b)
      else \<not> (a \<or> b))"

fun textbook_value :: "(pystr \<Rightarrow> bool) \<Rightarrow> Formula \<Rightarrow> bool" where
  "textbook_value val (Leaf r) = (if is_variable r = Inr True then val r else r = py ''T'')"
| "textbook_value val (Unary r f) = (\<not> textbook_value val f)"
| "textbook_value val (Binary r f s) =
     truth_table r (textbook_value val f) (textbook_value val s)"

text \<open>The valuation a model stands for: a name is true when the model maps it to \<^verbatim>\<open>True\<close>.\<close>

definition valuation :: "Model \<Rightarrow> pystr \<Rightarrow> bool" where
  "valuation model v = (map_of model v = Some True)"

text \<open>
  Substitution of variables as the specification words it: one pass over the tree, each
  leaf that holds a mapped variable name becomes the mapped formula (which is not looked
  into again), every other node is kept.
\<close>

fun replace_variables :: "(pystr \<rightharpoonup> Formula) \<Rightarrow> Formula \<Rightarrow> Formula" where
  "replace_variables \<sigma> (Leaf r) =
     (if is_variable r = Inr True then (case \<sigma> r of None \<Rightarrow> Leaf r | Some g \<Rightarrow> g) else Leaf r)"
| "replace_variables \<sigma> (Unary r f) = Unary r (replace_variables \<sigma> f)"
| "replace_variables \<sigma> (Binary r f s) = Binary r (replace_variables \<sigma> f) (replace_variables \<sigma> s)"

text \<open>
  Substitution of operators as the specification words it: the operands are rewritten
  first; a node whose root is a key becomes its template with \<^verbatim>\<open>p\<close> replaced by the
  rewritten first operand and \<^verbatim>\<open>q\<close> by the rewritten second one (as far as the node has
  them), by the one-pass substitution above; any other node keeps its root.
\<close>

fun rewrite_operators :: "(pystr \<rightharpoonup> Formula) \<Rightarrow> Formula \<Rightarrow> Formula" where
  "rewrite_operators \<sigma> (Leaf r) =
     (if is_variable r = Inr True then Leaf r
      else (case \<sigma> r of None \<Rightarrow> Leaf r | Some template \<Rightarrow> template))"
| "rewrite_operators \<sigma> (Unary r f) =
     (let f' = rewrite_operators \<sigma> f
      in case \<sigma> r of
           None \<Rightarrow> Unary r f'
         | Some template \<Rightarrow> replace_variables [py ''p'' \<mapsto> f'] template)"
| "rewrite_operators \<sigma> (Binary r f s) =
     (let f' = rewrite_operators \<sigma> f; s' = rewrite_operators \<sigma> s
      in case \<sigma> r of
           None \<Rightarrow> Binary r f' s'
         | Some template \<Rightarrow> replace_variables [py ''p'' \<mapsto> f', py ''q'' \<mapsto> s'] template)"

text \<open>
  The messages of the parsers: one of five human-readable texts, two of which end with the
  offending token.  \<open>parse_result_ok s res\<close> is the contract of a parser's result on the
  input \<open>s\<close>: a formula built by the constructor whose standard string, followed by the
  returned suffix, is \<open>s\<close>; or no formula and one of the messages.
\<close>

definition error_message :: "pystr \<Rightarrow> bool" where
  "error_message msg =
     (msg = py ''unexpected end of input'' \<or>
      startswith msg (py ''invalid variable name: '') \<or>
      msg = py ''expected binary operator'' \<or>
      msg = py ''expected '' @ [39, 41, 39] \<or>
      (startswith msg (py ''unexpected token: '') \<and> length msg = 19))"

definition parse_result_ok :: "pystr \<Rightarrow> Formula option \<times> pystr \<Rightarrow> bool" where
  "parse_result_ok s res =
     (case res of
        (Some f, rest) \<Rightarrow> well_formed f \<and> s = repr f @ rest
      | (None, msg) \<Rightarrow> error_message msg)"

section \<open>Variable names\<close>

lemma is_variable_iff:
  "(is_variable s = Inr True) =
   (case s of [] \<Rightarrow> False | c # ds \<Rightarrow> 112 \<le> c \<and> c \<le> 122 \<and> list_all isdecimal_char ds)"
  by (cases s) (auto simp: is_variable_def isdecimal_def)

text \<open>
  Claim C9, as amended.  \<^verbatim>\<open>is_variable(s)\<close> returns \<^verbatim>\<open>True\<close> exactly when \<open>s\<close> is a letter
  from \<^verbatim>\<open>p\<close> to \<^verbatim>\<open>z\<close> followed only by characters that \<^verbatim>\<open>str.isdecimal\<close> accepts, which are
  the decimal digits of every script and not only \<^verbatim>\<open>0\<close> to \<^verbatim>\<open>9\<close>.  On a string of ASCII
  characters this is the pattern \<^verbatim>\<open>[p-z][0-9]*\<close>.
\<close>

theorem is_variable_pattern:
  "(is_variable s = Inr True) =
     (case s of [] \<Rightarrow> False | c # ds \<Rightarrow> 112 \<le> c \<and> c \<le> 122 \<and> list_all isdecimal_char ds) \<and>
   (list_all (\<lambda>c. c < 128) s \<longrightarrow> (is_variable s = Inr True) = variable_pattern s)"
proof -
  have "list_all (\<lambda>c. c < 128) ds \<Longrightarrow>
        list_all isdecimal_char ds = list_all (\<lambda>d. 48 \<le> d \<and> d \<le> 57) ds" for ds
    by (induction ds) (auto simp: isdecimal_char_ascii)
  then have "list_all (\<lambda>c. c < 128) s \<longrightarrow> (is_variable s = Inr True) = variable_pattern s"
    by (cases s) (auto simp: is_variable_iff variable_pattern_def)
  then show ?thesis
    using is_variable_iff by blast
qed

theorem is_variable_pattern_witness:
  "list_all (\<lambda>c. c < 128) (py ''q76'') \<and> is_variable (py ''q76'') = Inr True \<and>
   variable_pattern (py ''q76'')"
  using is_variable_pattern [of "py ''q76''"] by (simp add: variable_pattern_def)

text \<open>
  Claim C9, as stated, fails: \<^verbatim>\<open>is_variable\<close> accepts the two-character string made of
  \<^verbatim>\<open>p\<close> and U+0663 (ARABIC-INDIC DIGIT THREE), which the pattern \<^verbatim>\<open>[p-z][0-9]*\<close> rejects.
\<close>

theorem is_variable_ascii_pattern_counterexample:
  "is_variable [112, 1635] = Inr True \<and> \<not> variable_pattern [112, 1635]"
  by (simp add: is_variable_def isdecimal_def isdecimal_char_def decimal_ranges_def
      variable_pattern_def)

section \<open>Evaluation\<close>

lemma is_model_True:
  "(is_model m = Inr True) = (\<forall>k \<in> set (map fst m). is_variable k = Inr True)"
  by (induction m) (auto split: sum.splits if_splits)

lemma model_variables_ok:
  "is_model m = Inr True \<Longrightarrow> model_variables m = Inr (set (map fst m))"
  by (simp add: model_variables_def)

lemma lookup_valuation:
  "v \<in> set (map fst m) \<Longrightarrow> lookup m v = Inr (valuation m v)"
  by (cases "map_of m v") (auto simp: lookup_def valuation_def map_of_eq_None_iff)

lemma is_binary_cases:
  "is_binary r \<Longrightarrow>
   r = py ''&'' \<or> r = py ''|'' \<or> r = py ''->'' \<or> r = py ''+'' \<or> r = py ''<->'' \<or>
   r = py ''-&'' \<or> r = py ''-|''"
  by (simp add: is_binary_def)

lemma evaluate_eq_textbook_value:
  assumes "well_formed f" and "is_model m = Inr True" and "variables f \<subseteq> set (map fst m)"
  shows "evaluate f m = Inr (textbook_value (valuation m) f)"
  using assms
proof (induction f)
  case (Leaf r)
  then show ?case
    by (subst evaluate.simps) (auto simp: model_variables_ok lookup_valuation is_constant_def)
next
  case (Unary r f)
  then show ?case
    by (subst evaluate.simps) (auto simp: model_variables_ok)
next
  case (Binary r f s)
  then have a: "evaluate f m = Inr (textbook_value (valuation m) f)"
    and b: "evaluate s m = Inr (textbook_value (valuation m) s)"
    and bin: "is_binary r"
    by auto
  from is_binary_cases[OF bin] Binary.prems a b bin show ?case
    by (subst evaluate.simps) (auto simp: model_variables_ok truth_table_def)
qed

text \<open>The rows of the seven tables, written out.\<close>

lemma truth_table_rows:
  "truth_table (py ''&'') True True" "\<not> truth_table (py ''&'') True False"
  "\<not> truth_table (py ''&'') False True" "\<not> truth_table (py ''&'') False False"
  "truth_table (py ''|'') True True" "truth_table (py ''|'') True False"
  "truth_table (py ''|'') False True" "\<not> truth_table (py ''|'') False False"
  "truth_table (py ''->'') True True" "\<not> truth_table (py ''->'') True False"
  "truth_table (py ''->'') False True" "truth_table (py ''->'') False False"
  "\<not> truth_table (py ''+'') True True" "truth_table (py ''+'') True False"
  "truth_table (py ''+'') False True" "\<not> truth_table (py ''+'') False False"
  "truth_table (py ''<->'') True True" "\<not> truth_table (py ''<->'') True False"
  "\<not> truth_table (py ''<->'') False True" "truth_table (py ''<->'') False False"
  "\<not> truth_table (py ''-&'') True True" "truth_table (py ''-&'') True False"
  "truth_table (py ''-&'') False True" "truth_table (py ''-&'') False False"
  "\<not> truth_table (py ''-|'') True True" "\<not> truth_table (py ''-|'') True False"
  "\<not> truth_table (py ''-|'') False True" "truth_table (py ''-|'') False False"
  by (simp_all add: truth_table_def)

text \<open>
  Claim C1.  For a formula built by the constructor and a model whose keys are variable
  names and cover the formula's variables, \<^verbatim>\<open>evaluate\<close> returns (it raises nothing) the
  textbook value: a variable has its value in the model, \<^verbatim>\<open>T\<close> is true and \<^verbatim>\<open>F\<close> false,
  \<^verbatim>\<open>~\<close> negates, and each of the seven binary operators follows its truth table, whatever
  the values of the two operands.
\<close>

theorem evaluate_truth_tables:
  assumes "well_formed f" and "is_model m = Inr True" and "variables f \<subseteq> set (map fst m)"
  shows "evaluate f m = Inr (textbook_value (valuation m) f)"
  using assms by (rule evaluate_eq_textbook_value)

theorem evaluate_truth_tables_witness:
  "well_formed (Unary (py ''~'') (Binary (py ''-&'') (Leaf (py ''p'')) (Leaf (py ''q76'')))) \<and>
   is_model [(py ''p'', True), (py ''q76'', True)] = Inr True \<and>
   variables (Unary (py ''~'') (Binary (py ''-&'') (Leaf (py ''p'')) (Leaf (py ''q76''))))
     \<subseteq> set (map fst [(py ''p'', True), (py ''q76'', True)]) \<and>
   evaluate (Unary (py ''~'') (Binary (py ''-&'') (Leaf (py ''p'')) (Leaf (py ''q76''))))
     [(py ''p'', True), (py ''q76'', True)] = Inr True"
  using evaluate_truth_tables
    [of "Unary (py ''~'') (Binary (py ''-&'') (Leaf (py ''p'')) (Leaf (py ''q76'')))"
        "[(py ''p'', True), (py ''q76'', True)]"]
  by (simp add: is_variable_def isdecimal_def isdecimal_char_def is_unary_def is_binary_def
      truth_table_def valuation_def)

lemma textbook_value_cong:
  "\<forall>v \<in> variables f. val1 v = val2 v \<Longrightarrow> textbook_value val1 f = textbook_value val2 f"
  by (induction f) (auto split: if_splits)

text \<open>
  Claim C10.  \<^verbatim>\<open>evaluate\<close> looks at a model only at the formula's own variables: two models
  that both cover the formula's variables and agree on them give the same value, and the
  bindings a model has beyond these names do not matter.
\<close>

theorem evaluate_depends_on_variables:
  assumes "well_formed f"
    and "is_model m1 = Inr True" and "is_model m2 = Inr True"
    and "variables f \<subseteq> set (map fst m1)" and "variables f \<subseteq> set (map fst m2)"
    and "\<forall>v \<in> variables f. map_of m1 v = map_of m2 v"
  shows "evaluate f m1 = evaluate f m2 \<and> (\<exists>b. evaluate f m1 = Inr b)"
proof -
  have "textbook_value (valuation m1) f = textbook_value (valuation m2) f"
    using assms(6) by (intro textbook_value_cong) (simp add: valuation_def)
  then show ?thesis
    using assms by (simp add: evaluate_eq_textbook_value)
qed

theorem evaluate_depends_on_variables_witness:
  "well_formed (Unary (py ''~'') (Binary (py ''&'') (Leaf (py ''p'')) (Leaf (py ''q76'')))) \<and>
   is_model [(py ''p'', True), (py ''q76'', False)] = Inr True \<and>
   is_model [(py ''q76'', False), (py ''r'', False), (py ''p'', True)] = Inr True \<and>
   evaluate (Unary (py ''~'') (Binary (py ''&'') (Leaf (py ''p'')) (Leaf (py ''q76''))))
     [(py ''p'', True), (py ''q76'', False)] =
   evaluate (Unary (py ''~'') (Binary (py ''&'') (Leaf (py ''p'')) (Leaf (py ''q76''))))
     [(py ''q76'', False), (py ''r'', False), (py ''p'', True)]"
  using evaluate_depends_on_variables
    [of "Unary (py ''~'') (Binary (py ''&'') (Leaf (py ''p'')) (Leaf (py ''q76'')))"
        "[(py ''p'', True), (py ''q76'', False)]"
        "[(py ''q76'', False), (py ''r'', False), (py ''p'', True)]"]
  by (simp add: is_variable_def isdecimal_def isdecimal_char_def is_unary_def is_binary_def)

section \<open>Substitution of variables\<close>

lemma Formula_init_Leaf:
  "is_variable r = Inr True \<or> is_constant r \<Longrightarrow> Formula_init r None None = Inr (Leaf r)"
  by (cases r) (auto simp: Formula_init_def is_variable_def is_constant_def)

lemma Formula_init_Unary:
  "is_unary r \<Longrightarrow> Formula_init r (Some f) None = Inr (Unary r f)"
  by (auto simp: Formula_init_def is_variable_def is_constant_def is_unary_def)

lemma Formula_init_Binary:
  "is_binary r \<Longrightarrow> Formula_init r (Some f) (Some s) = Inr (Binary r f s)"
  by (auto simp: Formula_init_def is_variable_def is_constant_def is_unary_def is_binary_def)

lemma substitute_variables_eq_replace:
  assumes "well_formed f" and "assert_variable_keys \<sigma> = Inr ()"
  shows "substitute_variables f \<sigma> = Inr (replace_variables (map_of \<sigma>) f)"
  using assms
  by (induction f) (auto simp: Formula_init_Unary Formula_init_Binary)

lemma substitute_variables_Nil:
  "well_formed f \<Longrightarrow> substitute_variables f [] = Inr f"
  by (induction f) (auto simp: Formula_init_Unary Formula_init_Binary)

lemma replace_variables_value:
  "textbook_value val (replace_variables \<sigma> f) =
   textbook_value (\<lambda>v. case \<sigma> v of None \<Rightarrow> val v | Some g \<Rightarrow> textbook_value val g) f"
  by (induction f) (auto split: option.splits)

text \<open>
  Claim C7.  With a map whose keys are variable names, \<^verbatim>\<open>substitute_variables\<close> returns
  the one-pass substitution: a mapped variable of the receiver becomes its formula, a
  constant and an unmapped variable stay, the operators are kept, and nothing is
  substituted inside an inserted formula.  The result is a new formula; the receiver is a
  value and does not change.
\<close>

theorem substitute_variables_single_pass:
  assumes "well_formed f" and "assert_variable_keys \<sigma> = Inr ()"
  shows "substitute_variables f \<sigma> = Inr (replace_variables (map_of \<sigma>) f)"
  using assms by (rule substitute_variables_eq_replace)

text \<open>
  The example of the claim: \<^verbatim>\<open>{p: (q&r), q: p, r: T}\<close> in \<^verbatim>\<open>(p|p)\<close> gives
  \<^verbatim>\<open>((q&r)|(q&r))\<close>, although \<^verbatim>\<open>q\<close> and \<^verbatim>\<open>r\<close> are keys too.
\<close>

theorem substitute_variables_single_pass_witness:
  "well_formed (Binary (py ''|'') (Leaf (py ''p'')) (Leaf (py ''p''))) \<and>
   assert_variable_keys
     [(py ''p'', Binary (py ''&'') (Leaf (py ''q'')) (Leaf (py ''r''))),
      (py ''q'', Leaf (py ''p'')), (py ''r'', Leaf (py ''T''))] = Inr () \<and>
   substitute_variables (Binary (py ''|'') (Leaf (py ''p'')) (Leaf (py ''p'')))
     [(py ''p'', Binary (py ''&'') (Leaf (py ''q'')) (Leaf (py ''r''))),
      (py ''q'', Leaf (py ''p'')), (py ''r'', Leaf (py ''T''))] =
   Inr (Binary (py ''|'') (Binary (py ''&'') (Leaf (py ''q'')) (Leaf (py ''r'')))
          (Binary (py ''&'') (Leaf (py ''q'')) (Leaf (py ''r''))))"
  using substitute_variables_single_pass
    [of "Binary (py ''|'') (Leaf (py ''p'')) (Leaf (py ''p''))"
        "[(py ''p'', Binary (py ''&'') (Leaf (py ''q'')) (Leaf (py ''r''))),
          (py ''q'', Leaf (py ''p'')), (py ''r'', Leaf (py ''T''))]"]
  by (simp add: is_variable_def is_binary_def)

section \<open>Substitution of operators\<close>

lemma marker_keys_ok:
  "assert_variable_keys [(py ''p'', a)] = Inr ()"
  "assert_variable_keys [(py ''p'', a), (py ''q'', b)] = Inr ()"
  by (simp_all add: is_variable_def)

lemma substitute_operators_eq_rewrite:
  assumes "well_formed f" and "operator_map_ok \<sigma>" and "\<forall>t \<in> ran (map_of \<sigma>). well_formed t"
  shows "substitute_operators f \<sigma> = Inr (rewrite_operators (map_of \<sigma>) f)"
  using assms(1)
proof (induction f)
  case (Leaf r)
  have "substitute_variables t [] = Inr t" if "map_of \<sigma> r = Some t" for t
    using that assms(3) by (intro substitute_variables_Nil) (auto simp: ran_def)
  with Leaf assms(2) show ?case
    by (auto simp: Formula_init_Leaf split: option.splits)
next
  case (Unary r f)
  have "substitute_variables t [(py ''p'', a)] = Inr (replace_variables [py ''p'' \<mapsto> a] t)"
    if "map_of \<sigma> r = Some t" for t a
    using that assms(3) substitute_variables_eq_replace[OF _ marker_keys_ok(1), of t a]
    by (auto simp: ran_def)
  with Unary assms(2) show ?case
    by (auto simp: Formula_init_Unary split: option.splits)
next
  case (Binary r f s)
  have "substitute_variables t [(py ''p'', a), (py ''q'', b)] =
        Inr (replace_variables [py ''p'' \<mapsto> a, py ''q'' \<mapsto> b] t)"
    if "map_of \<sigma> r = Some t" for t a b
  proof -
    have "[py ''p'' \<mapsto> a, py ''q'' \<mapsto> b] = map_of [(py ''p'', a), (py ''q'', b)]"
      by (auto simp: fun_eq_iff)
    with that assms(3) substitute_variables_eq_replace[OF _ marker_keys_ok(2), of t a b]
    show ?thesis
      by (auto simp: ran_def simp del: map_of.simps)
  qed
  with Binary assms(2) show ?case
    by (auto simp: Formula_init_Binary split: option.splits)
qed

text \<open>
  Claim C8.  With a map that passes the assertions of \<^verbatim>\<open>substitute_operators\<close> (the keys
  are constants or operators, the variables of the templates are among \<^verbatim>\<open>p\<close> and \<^verbatim>\<open>q\<close>),
  the method returns the bottom-up rewriting: the operands are rewritten first, a node
  whose root is a key becomes its template with \<^verbatim>\<open>p\<close> and \<^verbatim>\<open>q\<close> replaced by the rewritten
  operands, and any other node is rebuilt around its rewritten operands.
\<close>

theorem substitute_operators_bottom_up:
  assumes "well_formed f" and "operator_map_ok \<sigma>" and "\<forall>t \<in> ran (map_of \<sigma>). well_formed t"
  shows "substitute_operators f \<sigma> = Inr (rewrite_operators (map_of \<sigma>) f)"
  using assms by (rule substitute_operators_eq_rewrite)

text \<open>
  The example of the claim: \<^verbatim>\<open>{'&': ~(~p|~q)}\<close> in \<^verbatim>\<open>((x&y)&~z)\<close> gives
  \<^verbatim>\<open>~(~~(~x|~y)|~~z)\<close>.
\<close>

theorem substitute_operators_bottom_up_witness:
  "well_formed
     (Binary (py ''&'') (Binary (py ''&'') (Leaf (py ''x'')) (Leaf (py ''y'')))
        (Unary (py ''~'') (Leaf (py ''z'')))) \<and>
   operator_map_ok
     [(py ''&'', Unary (py ''~'') (Binary (py ''|'') (Unary (py ''~'') (Leaf (py ''p'')))
                    (Unary (py ''~'') (Leaf (py ''q'')))))] \<and>
   well_formed
     (Unary (py ''~'') (Binary (py ''|'') (Unary (py ''~'') (Leaf (py ''p'')))
        (Unary (py ''~'') (Leaf (py ''q''))))) \<and>
   map_sum id repr
     (substitute_operators
        (Binary (py ''&'') (Binary (py ''&'') (Leaf (py ''x'')) (Leaf (py ''y'')))
           (Unary (py ''~'') (Leaf (py ''z''))))
        [(py ''&'', Unary (py ''~'') (Binary (py ''|'') (Unary (py ''~'') (Leaf (py ''p'')))
                       (Unary (py ''~'') (Leaf (py ''q'')))))]) =
   Inr (py ''~(~~(~x|~y)|~~z)'')"
proof -
  let ?f = "Binary (py ''&'') (Binary (py ''&'') (Leaf (py ''x'')) (Leaf (py ''y'')))
              (Unary (py ''~'') (Leaf (py ''z'')))"
  let ?t = "Unary (py ''~'') (Binary (py ''|'') (Unary (py ''~'') (Leaf (py ''p'')))
              (Unary (py ''~'') (Leaf (py ''q''))))"
  have wf: "well_formed ?f" and wt: "well_formed ?t"
    by (simp_all add: is_variable_def is_binary_def is_unary_def)
  have ok: "operator_map_ok [(py ''&'', ?t)]"
    by (simp add: operator_map_ok_def is_variable_def is_binary_def)
  have tm: "\<forall>t \<in> ran (map_of [(py ''&'', ?t)]). well_formed t"
    using wt by simp
  have "map_sum id repr (substitute_operators ?f [(py ''&'', ?t)]) =
      Inr (py ''~(~~(~x|~y)|~~z)'')"
    unfolding substitute_operators_bottom_up [OF wf ok tm]
    by (simp add: is_variable_def)
  with wf wt ok show ?thesis
    by blast
qed

section \<open>Enumeration of models\<close>

lemma update_fresh: "k \<notin> fst ` set m \<Longrightarrow> AList.update k v m = m @ [(k, v)]"
  by (induction m) auto

lemma mask_bit_mod: "(drop_bit k m mod 2 = Suc 0) = bit (m::nat) k"
  by (simp add: bit_iff_odd_drop_bit odd_iff_mod_2_eq_one)

text \<open>
  The dictionary a binary counter gives the names \<open>vars\<close> at count \<open>k\<close>: the name at
  position \<open>i\<close> gets bit \<open>length vars - 1 - i\<close> of \<open>k\<close>, so the first name gets the most
  significant bit.
\<close>

definition counter_model :: "pystr list \<Rightarrow> nat \<Rightarrow> Model" where
  "counter_model vars k =
     map (\<lambda>i. (vars ! i, bit k (length vars - 1 - i))) [0..<length vars]"

lemma build_model_fresh:
  "distinct vs \<Longrightarrow> set vs \<inter> fst ` set m = {} \<Longrightarrow>
   build_model msk n i vs m =
     m @ map (\<lambda>j. (vs ! j, bit msk (n - 1 - (i + j)))) [0..<length vs]"
proof (induction vs arbitrary: i m)
  case Nil
  then show ?case by simp
next
  case (Cons v vs)
  have "build_model msk n i (v # vs) m = build_model msk n (i + 1) vs (m @ [(v, bit msk (n - 1 - i))])"
    using Cons.prems by (simp add: update_fresh mask_bit_mod)
  also have "\<dots> = (m @ [(v, bit msk (n - 1 - i))]) @
      map (\<lambda>j. (vs ! j, bit msk (n - 1 - (i + 1 + j)))) [0..<length vs]"
    using Cons.prems by (intro Cons.IH) auto
  also have "\<dots> = m @ map (\<lambda>j. ((v # vs) ! j, bit msk (n - 1 - (i + j)))) [0..<length (v # vs)]"
    by (simp add: map_upt_Suc del: upt_Suc)
  finally show ?case .
qed

lemma build_model_counter:
  "distinct vars \<Longrightarrow> build_model msk (length vars) 0 vars [] = counter_model vars msk"
  by (simp add: build_model_fresh counter_model_def)

lemma all_models_distinct:
  assumes "assert_variables vars = Inr ()" and "distinct vars"
  shows "all_models vars = Inr (map (counter_model vars) [0..<2 ^ length vars])"
  using assms by (simp add: all_models_def build_model_counter)

lemma counter_model_keys: "map fst (counter_model vars k) = vars"
  by (simp add: counter_model_def comp_def map_nth)

lemma counter_model_lookup:
  assumes "distinct vars" and "i < length vars"
  shows "map_of (counter_model vars k) (vars ! i) = Some (bit k (length vars - 1 - i))"
proof -
  have "distinct (map fst (counter_model vars k))"
    using assms(1) by (simp add: counter_model_keys)
  moreover have "(vars ! i, bit k (length vars - 1 - i)) \<in> set (counter_model vars k)"
    using assms(2) by (auto simp: counter_model_def)
  ultimately show ?thesis by (rule map_of_is_SomeI)
qed

lemma all_models_examples:
  "all_models [] = Inr [[]]"
  "all_models [py ''p'', py ''q''] =
     Inr [[(py ''p'', False), (py ''q'', False)], [(py ''p'', False), (py ''q'', True)],
          [(py ''p'', True), (py ''q'', False)], [(py ''p'', True), (py ''q'', True)]]"
  by code_simp+

text \<open>
  Claim C5, as amended.  For a list of \<open>n\<close> valid and pairwise distinct variable names,
  \<^verbatim>\<open>all_models\<close> yields \<open>2 ^ n\<close> models; model number \<open>k\<close> has exactly the given names as keys
  (in the given order) and maps the name at position \<open>i\<close> to bit \<open>n - 1 - i\<close> of \<open>k\<close>, so the
  models count from all false (\<open>k = 0\<close>) to all true (\<open>k = 2 ^ n - 1\<close>) with the first name as
  the most significant bit.  The empty list yields the one empty model, and
  \<^verbatim>\<open>['p', 'q']\<close> yields the four models of the specification in its order.
\<close>

theorem all_models_binary_counter:
  assumes "assert_variables vars = Inr ()" and "distinct vars"
  shows "(\<exists>ms. all_models vars = Inr ms \<and> length ms = 2 ^ length vars \<and>
           (\<forall>k < 2 ^ length vars.
              map fst (ms ! k) = vars \<and>
              (\<forall>i < length vars.
                 map_of (ms ! k) (vars ! i) = Some (bit k (length vars - 1 - i)))) \<and>
           (\<forall>i < length vars. map_of (ms ! 0) (vars ! i) = Some False) \<and>
           (\<forall>i < length vars. map_of (ms ! (2 ^ length vars - 1)) (vars ! i) = Some True)) \<and>
         all_models [] = Inr [[]] \<and>
         all_models [py ''p'', py ''q''] =
           Inr [[(py ''p'', False), (py ''q'', False)], [(py ''p'', False), (py ''q'', True)],
                [(py ''p'', True), (py ''q'', False)], [(py ''p'', True), (py ''q'', True)]]"
proof -
  have "bit (2 ^ length vars - 1 :: nat) (length vars - 1 - i)" if "i < length vars" for i
  proof -
    have "(2 ^ length vars - 1 :: nat) = mask (length vars)"
      by (simp add: mask_eq_exp_minus_1)
    then show ?thesis
      using that by (simp only: bit_mask_iff) simp
  qed
  then have "\<forall>i < length vars. map_of (counter_model vars (2 ^ length vars - 1)) (vars ! i) = Some True"
    using assms(2) by (simp add: counter_model_lookup)
  moreover have "\<forall>i < length vars. map_of (counter_model vars 0) (vars ! i) = Some False"
    using assms(2) by (simp add: counter_model_lookup)
  moreover have "\<forall>k < 2 ^ length vars. map fst (counter_model vars k) = vars \<and>
      (\<forall>i < length vars. map_of (counter_model vars k) (vars ! i) = Some (bit k (length vars - 1 - i)))"
    using assms(2) by (simp add: counter_model_keys counter_model_lookup)
  ultimately have "\<exists>ms. all_models vars = Inr ms \<and> length ms = 2 ^ length vars \<and>
           (\<forall>k < 2 ^ length vars.
              map fst (ms ! k) = vars \<and>
              (\<forall>i < length vars.
                 map_of (ms ! k) (vars ! i) = Some (bit k (length vars - 1 - i)))) \<and>
           (\<forall>i < length vars. map_of (ms ! 0) (vars ! i) = Some False) \<and>
           (\<forall>i < length vars. map_of (ms ! (2 ^ length vars - 1)) (vars ! i) = Some True)"
    using assms by (simp add: all_models_distinct del: upt_Suc)
  then show ?thesis
    using all_models_examples by blast
qed

theorem all_models_binary_counter_witness:
  "assert_variables [py ''q'', py ''p'', py ''r''] = Inr () \<and>
   distinct [py ''q'', py ''p'', py ''r''] \<and>
   (\<exists>ms. all_models [py ''q'', py ''p'', py ''r''] = Inr ms \<and> length ms = 8 \<and>
      map_of (ms ! 4) (py ''q'') = Some True \<and> map_of (ms ! 4) (py ''p'') = Some False \<and>
      map_of (ms ! 4) (py ''r'') = Some False)"
proof -
  let ?V = "[py ''q'', py ''p'', py ''r'']"
  have a: "assert_variables ?V = Inr ()"
    by (simp add: is_variable_def)
  have d: "distinct ?V"
    by simp
  from all_models_binary_counter [OF a d] obtain ms where
    ms: "all_models ?V = Inr ms" "length ms = 2 ^ length ?V"
    and bits: "\<forall>k < 2 ^ length ?V. map fst (ms ! k) = ?V \<and>
      (\<forall>i < length ?V. map_of (ms ! k) (?V ! i) = Some (bit k (length ?V - 1 - i)))"
    by (elim conjE exE)
  have k: "(4 :: nat) < 2 ^ length ?V"
    by simp
  from bits k have b: "\<And>i. i < length ?V \<Longrightarrow>
      map_of (ms ! 4) (?V ! i) = Some (bit (4 :: nat) (length ?V - 1 - i))"
    by blast
  have "map_of (ms ! 4) (py ''q'') = Some True"
    using b [of 0] by (simp add: bit_iff_odd)
  moreover have "map_of (ms ! 4) (py ''p'') = Some False"
    using b [of 1] by (simp add: bit_iff_odd)
  moreover have "map_of (ms ! 4) (py ''r'') = Some False"
    using b [of 2] by (simp add: bit_iff_odd)
  moreover have "length ms = 8"
    using ms(2) by simp
  ultimately show ?thesis
    using a d ms(1) by blast
qed

text \<open>
  Claim C5, as stated for every list of valid names, fails when a name occurs twice: for
  \<^verbatim>\<open>['p', 'p']\<close> the model of count 2 (binary 10) maps the first name to \<^verbatim>\<open>False\<close>, the
  later assignment of the same key having replaced the most significant bit.
\<close>

theorem all_models_duplicate_names_counterexample:
  "all_models [py ''p'', py ''p''] =
     Inr [[(py ''p'', False)], [(py ''p'', True)], [(py ''p'', False)], [(py ''p'', True)]] \<and>
   map_of ([[(py ''p'', False)], [(py ''p'', True)], [(py ''p'', False)], [(py ''p'', True)]] ! 2)
     ([py ''p'', py ''p''] ! 0) \<noteq> Some (bit (2 :: nat) (2 - 1 - 0))"
  by code_simp

section \<open>The infix parser: round trip and contract\<close>

lemma scan_decimals_takeWhile:
  "i \<le> length s \<Longrightarrow> scan_decimals s i = i + length (takeWhile isdecimal_char (drop i s))"
proof (induction s i rule: scan_decimals.induct)
  case (1 string i)
  show ?case
  proof (cases "i < length string \<and> isdecimal_char (string ! i)")
    case True
    then have d: "drop i string = string ! i # drop (i + 1) string"
      by (simp add: Cons_nth_drop_Suc)
    from True have "scan_decimals string i = scan_decimals string (i + 1)"
      by (subst scan_decimals.simps) simp
    also have "\<dots> = i + 1 + length (takeWhile isdecimal_char (drop (i + 1) string))"
      using True by (intro "1.IH") auto
    finally show ?thesis using True d by simp
  next
    case False
    then have "scan_decimals string i = i"
      by (subst scan_decimals.simps) auto
    moreover have "takeWhile isdecimal_char (drop i string) = []"
    proof (cases "i < length string")
      case True
      with False have "\<not> isdecimal_char (string ! i)" by simp
      moreover from True have "drop i string = string ! i # drop (i + 1) string"
        by (simp add: Cons_nth_drop_Suc)
      ultimately show ?thesis by simp
    next
      case False
      then show ?thesis by simp
    qed
    ultimately show ?thesis by simp
  qed
qed

lemma scan_decimals_Cons:
  "scan_decimals (c # cs) (Suc 0) = Suc (length (takeWhile isdecimal_char cs))"
  using scan_decimals_takeWhile[of 1 "c # cs"] by simp

lemma is_variable_scanned:
  "is_variable (c # takeWhile isdecimal_char cs) = Inr (112 \<le> c \<and> c \<le> 122)"
proof -
  have "list_all isdecimal_char (takeWhile isdecimal_char cs)"
    by (auto simp: list_all_iff dest: set_takeWhileD)
  then show ?thesis
    by (auto simp: is_variable_def isdecimal_def)
qed

lemma parse_prefix_Nil: "parse_prefix [] = Inr (None, py ''unexpected end of input'')"
  by (subst parse_prefix.simps) simp

lemma parse_prefix_constant:
  "is_constant [c] \<Longrightarrow> parse_prefix (c # cs) = Inr (Some (Leaf [c]), cs)"
  by (subst parse_prefix.simps) (simp add: Formula_init_Leaf)

lemma parse_prefix_letter:
  assumes "\<not> is_constant [c]" and "isalpha_char c"
  shows "parse_prefix (c # cs) =
    (if 112 \<le> c \<and> c \<le> 122
     then Inr (Some (Leaf (c # takeWhile isdecimal_char cs)), dropWhile isdecimal_char cs)
     else Inr (None, py ''invalid variable name: '' @ c # takeWhile isdecimal_char cs))"
proof -
  have t: "take (length (takeWhile isdecimal_char cs)) cs = takeWhile isdecimal_char cs"
    by (simp flip: takeWhile_eq_take)
  have d: "drop (length (takeWhile isdecimal_char cs)) cs = dropWhile isdecimal_char cs"
    by (simp flip: dropWhile_eq_drop)
  show ?thesis
    using assms
    by (subst parse_prefix.simps)
      (simp add: Let_def scan_decimals_Cons t d is_variable_scanned Formula_init_Leaf)
qed

lemma parse_prefix_tilde:
  "parse_prefix (126 # cs) =
    (case parse_prefix cs of
       Inl e \<Rightarrow> Inl e
     | Inr (None, rest) \<Rightarrow> Inr (None, rest)
     | Inr (Some inner, rest) \<Rightarrow> Inr (Some (Unary (py ''~'') inner), rest))"
  by (subst parse_prefix.simps)
    (simp add: is_constant_single isalpha_char_ascii Formula_init_Unary is_unary_def
      split: sum.splits option.splits prod.splits)

lemma parse_prefix_paren:
  "parse_prefix (40 # cs) =
    (case parse_prefix cs of
       Inl e \<Rightarrow> Inl e
     | Inr (None, rest) \<Rightarrow> Inr (None, rest)
     | Inr (Some left, rest) \<Rightarrow>
         (case scan_operator rest of
            None \<Rightarrow> Inr (None, py ''expected binary operator'')
          | Some (op, rest1) \<Rightarrow>
              (case parse_prefix rest1 of
                 Inl e \<Rightarrow> Inl e
               | Inr (None, rest2) \<Rightarrow> Inr (None, rest2)
               | Inr (Some right, rest2) \<Rightarrow>
                   if \<not> (length rest2 > 0 \<and> hd rest2 = 41) then
                     Inr (None, py ''expected '' @ [39, 41, 39])
                   else
                     (case Formula_init op (Some left) (Some right) of
                        Inl e \<Rightarrow> Inl e
                      | Inr f \<Rightarrow> Inr (Some f, drop 1 rest2)))))"
  by (subst parse_prefix.simps) (simp add: is_constant_single isalpha_char_ascii)

lemma parse_prefix_other:
  "\<not> is_constant [c] \<Longrightarrow> \<not> isalpha_char c \<Longrightarrow> c \<noteq> 126 \<Longrightarrow> c \<noteq> 40 \<Longrightarrow>
   parse_prefix (c # cs) = Inr (None, py ''unexpected token: '' @ [c])"
  by (subst parse_prefix.simps) simp

lemma scan_operator_sound:
  assumes "scan_operator r = Some (op, r1)"
  shows "is_binary op \<and> r = op @ r1"
proof (cases "startswith r (py ''->'')")
  case True
  then have "take 2 r = py ''->''"
    by (simp add: startswith_def numeral_2_eq_2)
  moreover from assms True have "op = py ''->''" "r1 = drop 2 r"
    by (simp_all add: scan_operator_def)
  ultimately have "r = op @ r1"
    by (metis append_take_drop_id)
  moreover have "is_binary op"
    using \<open>op = py ''->''\<close> by (simp add: is_binary_def)
  ultimately show ?thesis by simp
next
  case False
  with assms have "\<exists>k. op = take k r \<and> r1 = drop k r \<and> is_binary op"
    by (auto simp: scan_operator_def split: if_splits)
  then show ?thesis by auto
qed

lemma is_binary_take3: "is_binary (take 3 r) \<and> 3 \<le> length r \<longleftrightarrow> take 3 r = py ''<->'' \<and> 3 \<le> length r"
  by (auto simp: is_binary_def dest: arg_cong[where f=length])

lemma is_binary_take2:
  "is_binary (take 2 r) \<and> 2 \<le> length r \<longleftrightarrow>
   (take 2 r = py ''->'' \<or> take 2 r = py ''-&'' \<or> take 2 r = py ''-|'') \<and> 2 \<le> length r"
  by (auto simp: is_binary_def dest: arg_cong[where f=length])

lemma scan_operator_binary:
  assumes "is_binary op"
  shows "scan_operator (op @ x) = Some (op, x)"
proof -
  have a: "(3 \<le> length r \<and> is_binary (take 3 r)) = (3 \<le> length r \<and> take 3 r = py ''<->'')" for r
    using is_binary_take3[of r] by blast
  have b: "(2 \<le> length r \<and> is_binary (take 2 r)) =
    (2 \<le> length r \<and> (take 2 r = py ''->'' \<or> take 2 r = py ''-&'' \<or> take 2 r = py ''-|''))" for r
    using is_binary_take2[of r] by blast
  have c: "is_binary [k] = (k = 38 \<or> k = 124 \<or> k = 43)" for k
    by (auto simp: is_binary_def)
  from is_binary_cases[OF assms] show ?thesis
    unfolding scan_operator_def a b
    by (elim disjE) (auto simp: startswith_def c numeral_2_eq_2 numeral_3_eq_3)
qed

lemma is_binary_hd: "is_binary op \<Longrightarrow> op \<noteq> [] \<and> \<not> isdecimal_char (hd op)"
  by (auto simp: is_binary_def isdecimal_char_ascii)

lemma is_unary_eq: "is_unary r = (r = [126])"
  by (simp add: is_unary_def)

lemma parse_prefix_repr:
  assumes "well_formed g"
  shows "\<exists>g' ds. parse_prefix (repr g @ r) = Inr (Some g', drop (length ds) r) \<and>
           repr g' = repr g @ ds \<and> well_formed g' \<and> take (length ds) r = ds \<and>
           (r = [] \<or> \<not> isdecimal_char (hd r) \<longrightarrow> g' = g \<and> ds = [])"
  using assms
proof (induction g arbitrary: r)
  case (Leaf r0)
  show ?case
  proof (cases "is_constant r0")
    case True
    then obtain c where c: "r0 = [c]" "is_constant [c]"
      by (auto simp: is_constant_def)
    then have "parse_prefix (repr (Leaf r0) @ r) = Inr (Some (Leaf r0), drop (length ([]::pystr)) r)"
      by (simp add: parse_prefix_constant)
    with Leaf show ?thesis
      by (intro exI[of _ "Leaf r0"] exI[of _ "[]"]) simp
  next
    case False
    with Leaf have v: "is_variable r0 = Inr True" by simp
    then obtain c ds0 where r0: "r0 = c # ds0" "112 \<le> c" "c \<le> 122" "list_all isdecimal_char ds0"
      by (auto simp: is_variable_iff split: list.splits)
    let ?ds = "takeWhile isdecimal_char r"
    have nc: "\<not> is_constant [c]" using r0 by (auto simp: is_constant_single)
    have al: "isalpha_char c" using r0 by (simp add: isalpha_char_ascii)
    have tw: "takeWhile isdecimal_char (ds0 @ r) = ds0 @ ?ds"
      using r0(4) by (simp add: list_all_iff takeWhile_append2)
    have dw: "dropWhile isdecimal_char (ds0 @ r) = dropWhile isdecimal_char r"
      using r0(4) by (simp add: list_all_iff dropWhile_append2)
    have "parse_prefix (repr (Leaf r0) @ r) = Inr (Some (Leaf (r0 @ ?ds)), drop (length ?ds) r)"
      using r0 parse_prefix_letter[OF nc al, of "ds0 @ r"]
      by (simp add: tw dw flip: dropWhile_eq_drop)
    moreover have "well_formed (Leaf (r0 @ ?ds))"
      using r0 by (auto simp: is_variable_iff list_all_iff dest: set_takeWhileD)
    moreover have "take (length ?ds) r = ?ds"
      by (simp flip: takeWhile_eq_take)
    moreover have "r = [] \<or> \<not> isdecimal_char (hd r) \<longrightarrow> ?ds = []"
      by (cases r) auto
    ultimately show ?thesis
      by (intro exI[of _ "Leaf (r0 @ ?ds)"] exI[of _ "?ds"]) auto
  qed
next
  case (Unary r0 g)
  then have r0: "r0 = [126]" and wf: "well_formed g"
    by (simp_all add: is_unary_eq)
  from Unary.IH[OF wf, of r] obtain g' ds where
    *: "parse_prefix (repr g @ r) = Inr (Some g', drop (length ds) r)"
       "repr g' = repr g @ ds" "well_formed g'" "take (length ds) r = ds"
       "r = [] \<or> \<not> isdecimal_char (hd r) \<longrightarrow> g' = g \<and> ds = []"
    by blast
  have "parse_prefix (repr (Unary r0 g) @ r) = Inr (Some (Unary r0 g'), drop (length ds) r)"
    using * r0 by (simp add: parse_prefix_tilde)
  with * r0 show ?case
    by (intro exI[of _ "Unary r0 g'"] exI[of _ ds]) (simp add: is_unary_def)
next
  case (Binary r0 f s)
  then have bin: "is_binary r0" and wf: "well_formed f" "well_formed s"
    by simp_all
  let ?r1 = "r0 @ repr s @ 41 # r"
  have "?r1 = [] \<or> \<not> isdecimal_char (hd ?r1)"
    using is_binary_hd[OF bin] by simp
  with Binary.IH(1)[OF wf(1), of ?r1]
  have 1: "parse_prefix (repr f @ ?r1) = Inr (Some f, ?r1)"
    by auto
  have 2: "scan_operator ?r1 = Some (r0, repr s @ 41 # r)"
    using scan_operator_binary[OF bin] by simp
  have "\<not> isdecimal_char (hd (41 # r))"
    by (simp add: isdecimal_char_ascii)
  with Binary.IH(2)[OF wf(2), of "41 # r"]
  have 3: "parse_prefix (repr s @ 41 # r) = Inr (Some s, 41 # r)"
    by auto
  have "parse_prefix (repr (Binary r0 f s) @ r) = Inr (Some (Binary r0 f s), r)"
    using 1 2 3 by (simp add: parse_prefix_paren Formula_init_Binary[OF bin])
  with Binary.prems show ?case
    by (intro exI[of _ "Binary r0 f s"] exI[of _ "[]"]) simp
qed

lemma parse_prefix_ok: "\<exists>res. parse_prefix s = Inr res \<and> parse_result_ok s res"
proof (induction s rule: length_induct)
  case (1 s)
  note IH = "1.IH"[rule_format]
  show ?case
  proof (cases s)
    case Nil
    then show ?thesis
      by (simp add: parse_prefix_Nil parse_result_ok_def error_message_def)
  next
    case (Cons c cs)
    consider (const) "is_constant [c]"
      | (alpha) "\<not> is_constant [c]" "isalpha_char c"
      | (tilde) "c = 126"
      | (paren) "c = 40"
      | (other) "\<not> is_constant [c]" "\<not> isalpha_char c" "c \<noteq> 126" "c \<noteq> 40"
      by blast
    then show ?thesis
    proof cases
      case const
      then show ?thesis
        using Cons by (simp add: parse_prefix_constant parse_result_ok_def)
    next
      case alpha
      have "is_variable (c # takeWhile isdecimal_char cs) = Inr True" if "112 \<le> c" "c \<le> 122"
        using that by (simp add: is_variable_scanned)
      then show ?thesis
        using Cons alpha
        by (simp add: parse_prefix_letter parse_result_ok_def error_message_def startswith_def)
    next
      case tilde
      from IH[of cs] Cons obtain res where
        res: "parse_prefix cs = Inr res" "parse_result_ok cs res"
        by auto
      show ?thesis
      proof (cases res)
        case (Pair fo rest)
        show ?thesis
        proof (cases fo)
          case None
          with res Pair Cons tilde show ?thesis
            by (simp add: parse_prefix_tilde parse_result_ok_def)
        next
          case (Some inner)
          with res Pair Cons tilde show ?thesis
            by (simp add: parse_prefix_tilde parse_result_ok_def is_unary_def)
        qed
      qed
    next
      case paren
      from IH[of cs] Cons obtain res where
        res: "parse_prefix cs = Inr res" "parse_result_ok cs res"
        by auto
      show ?thesis
      proof (cases res)
        case (Pair fo rest)
        show ?thesis
        proof (cases fo)
          case None
          with res Pair Cons paren show ?thesis
            by (simp add: parse_prefix_paren parse_result_ok_def)
        next
          case (Some left)
          with res Pair have left: "well_formed left" "cs = repr left @ rest"
            by (simp_all add: parse_result_ok_def)
          show ?thesis
          proof (cases "scan_operator rest")
            case None
            with res Pair Some Cons paren show ?thesis
              by (simp add: parse_prefix_paren parse_result_ok_def error_message_def)
          next
            case (Some opr)
            then obtain op rest1 where opr: "scan_operator rest = Some (op, rest1)"
              by (cases opr) auto
            from scan_operator_sound[OF opr] have op: "is_binary op" "rest = op @ rest1"
              by simp_all
            with left Cons have "length rest1 < length s"
              by simp
            from IH[OF this] obtain res2 where
              res2: "parse_prefix rest1 = Inr res2" "parse_result_ok rest1 res2"
              by auto
            show ?thesis
            proof (cases res2)
              case (Pair fo2 rest2)
              show ?thesis
              proof (cases fo2)
                case None
                with res \<open>res = (fo, rest)\<close> \<open>fo = Some left\<close> opr res2 Pair Cons paren
                show ?thesis
                  by (simp add: parse_prefix_paren parse_result_ok_def)
              next
                case (Some right)
                with res2 Pair have right: "well_formed right" "rest1 = repr right @ rest2"
                  by (simp_all add: parse_result_ok_def)
                show ?thesis
                proof (cases "length rest2 > 0 \<and> hd rest2 = 41")
                  case False
                  with res \<open>res = (fo, rest)\<close> \<open>fo = Some left\<close> opr res2 Pair Some Cons paren
                  show ?thesis
                    by (simp add: parse_prefix_paren parse_result_ok_def error_message_def)
                next
                  case True
                  then obtain rest3 where rest3: "rest2 = 41 # rest3"
                    by (cases rest2) auto
                  with res \<open>res = (fo, rest)\<close> \<open>fo = Some left\<close> opr res2 Pair Some Cons paren
                  have "parse_prefix s = Inr (Some (Binary op left right), rest3)"
                    by (simp add: parse_prefix_paren Formula_init_Binary[OF op(1)])
                  moreover have "s = repr (Binary op left right) @ rest3"
                    using Cons paren left right op rest3 by simp
                  ultimately show ?thesis
                    using left right op by (simp add: parse_result_ok_def)
                qed
              qed
            qed
          qed
        qed
      qed
    next
      case other
      then show ?thesis
        using Cons
        by (simp add: parse_prefix_other parse_result_ok_def error_message_def startswith_def)
    qed
  qed
qed

lemma parse_repr: "well_formed f \<Longrightarrow> parse (repr f) = Inr f"
  using parse_prefix_repr[of f "[]"] by (auto simp: parse_def is_formula_def)

lemma Formula_eq_iff:
  assumes "well_formed f" and "well_formed g"
  shows "Formula_eq f g = (f = g)"
proof
  assume "Formula_eq f g"
  then have "parse (repr f) = parse (repr g)"
    by (simp add: Formula_eq_def)
  with assms show "f = g"
    by (simp add: parse_repr)
qed (simp add: Formula_eq_def)

text \<open>
  Claim C2.  For every formula built by the constructor, over all seven binary operators,
  negation, constants and variables, parsing its standard string returns the same tree;
  the result is then also equal to the formula in the sense of \<^verbatim>\<open>__eq__\<close>.
\<close>

theorem parse_repr_round_trip:
  assumes "well_formed f"
  shows "parse (repr f) = Inr f \<and> (\<exists>g. parse (repr f) = Inr g \<and> Formula_eq g f)"
  using assms by (simp add: parse_repr Formula_eq_def)

theorem parse_repr_round_trip_witness:
  "well_formed
     (Binary (py ''<->'') (Binary (py ''-&'') (Leaf (py ''x'')) (Leaf (py ''T'')))
        (Unary (py ''~'') (Leaf (py ''z12'')))) \<and>
   repr (Binary (py ''<->'') (Binary (py ''-&'') (Leaf (py ''x'')) (Leaf (py ''T'')))
        (Unary (py ''~'') (Leaf (py ''z12'')))) = py ''((x-&T)<->~z12)'' \<and>
   parse (py ''((x-&T)<->~z12)'') =
     Inr (Binary (py ''<->'') (Binary (py ''-&'') (Leaf (py ''x'')) (Leaf (py ''T'')))
            (Unary (py ''~'') (Leaf (py ''z12''))))"
  using parse_repr_round_trip
    [of "Binary (py ''<->'') (Binary (py ''-&'') (Leaf (py ''x'')) (Leaf (py ''T'')))
           (Unary (py ''~'') (Leaf (py ''z12'')))"]
  by (simp add: is_variable_def isdecimal_def isdecimal_char_def is_unary_def is_binary_def
      is_constant_def)

lemma is_formula_iff: "is_formula s = Inr (\<exists>f. well_formed f \<and> s = repr f)"
proof -
  from parse_prefix_ok[of s] obtain fo rest where
    res: "parse_prefix s = Inr (fo, rest)" "parse_result_ok s (fo, rest)"
    by auto
  have "(fo \<noteq> None \<and> rest = []) = (\<exists>f. well_formed f \<and> s = repr f)"
  proof
    assume "fo \<noteq> None \<and> rest = []"
    with res(2) show "\<exists>f. well_formed f \<and> s = repr f"
      by (auto simp: parse_result_ok_def)
  next
    assume "\<exists>f. well_formed f \<and> s = repr f"
    then obtain f where "well_formed f" "s = repr f"
      by blast
    with parse_prefix_repr[of f "[]"] res(1) show "fo \<noteq> None \<and> rest = []"
      by auto
  qed
  with res(1) show ?thesis
    by (simp add: is_formula_def)
qed

lemma is_formula_examples:
  "is_formula (py ''((x-&T)<->~z12)'') = Inr True"
  "is_formula (py ''(p&q'') = Inr False"
  "is_formula (py ''p&q)'') = Inr False"
  "is_formula (py ''(p*q)'') = Inr False"
  "is_formula (py ''(p&'') = Inr False"
  "is_formula (py ''(p&q)r'') = Inr False"
  "is_formula [] = Inr False"
  by code_simp+

text \<open>
  The contract of the value: when the recursion limit is not reached, the pair is a
  formula and the unparsed suffix, where the formula's standard string followed by the
  suffix is the input and no formula's standard string is a longer prefix of the input; or
  it is no formula and one of the messages, and then no prefix of the input is the
  standard string of a formula.
\<close>

lemma parse_prefix_value_contract:
  "\<exists>res. parse_prefix s = Inr res \<and>
     (case res of
        (Some f, rest) \<Rightarrow>
          well_formed f \<and> s = repr f @ rest \<and>
          (\<forall>g r. well_formed g \<and> s = repr g @ r \<longrightarrow> length (repr g) \<le> length (repr f))
      | (None, msg) \<Rightarrow>
          error_message msg \<and> \<not> (\<exists>g r. well_formed g \<and> s = repr g @ r)) \<and>
     is_formula s = Inr (fst res \<noteq> None \<and> snd res = [])"
proof -
  from parse_prefix_ok[of s] obtain fo rest where
    res: "parse_prefix s = Inr (fo, rest)" "parse_result_ok s (fo, rest)"
    by auto
  have longest: "\<exists>f. fo = Some f \<and> length (repr g) \<le> length (repr f)"
    if "well_formed g" "s = repr g @ r" for g r
  proof -
    from parse_prefix_repr[OF that(1), of r] obtain g' ds where
      "parse_prefix (repr g @ r) = Inr (Some g', drop (length ds) r)" "repr g' = repr g @ ds"
      by blast
    with that(2) res(1) show ?thesis
      by auto
  qed
  have "case (fo, rest) of
        (Some f, rest) \<Rightarrow>
          well_formed f \<and> s = repr f @ rest \<and>
          (\<forall>g r. well_formed g \<and> s = repr g @ r \<longrightarrow> length (repr g) \<le> length (repr f))
      | (None, msg) \<Rightarrow>
          error_message msg \<and> \<not> (\<exists>g r. well_formed g \<and> s = repr g @ r)"
  proof (cases fo)
    case None
    with res(2) longest show ?thesis
      by (auto simp: parse_result_ok_def)
  next
    case (Some f)
    with res(2) longest show ?thesis
      by (fastforce simp: parse_result_ok_def)
  qed
  moreover have "is_formula s = Inr (fst (fo, rest) \<noteq> None \<and> snd (fo, rest) = [])"
    using res(1) by (simp add: is_formula_def)
  ultimately show ?thesis
    using res(1) by blast
qed

text \<open>
  The recursion limit.  \<open>openings s\<close> counts the characters \<^verbatim>\<open>~\<close> and \<^verbatim>\<open>(\<close> of a string, the
  only ones at which \<^verbatim>\<open>_parse_prefix\<close> calls itself.
\<close>

definition openings :: "pystr \<Rightarrow> nat" where
  "openings s = length (filter (\<lambda>c. c = 126 \<or> c = 40) s)"

lemma parse_prefix_limited_Nil:
  "parse_prefix_limited (Suc n) [] = Inr (None, py ''unexpected end of input'')"
  by (subst parse_prefix_limited.simps) simp

lemma parse_prefix_limited_flat:
  "c \<noteq> 126 \<Longrightarrow> c \<noteq> 40 \<Longrightarrow> parse_prefix_limited (Suc n) (c # cs) = parse_prefix (c # cs)"
  by (subst parse_prefix_limited.simps, subst parse_prefix.simps) (simp add: Let_def)

lemma parse_prefix_limited_tilde:
  "parse_prefix_limited (Suc n) (126 # cs) =
    (case parse_prefix_limited n cs of
       Inl e \<Rightarrow> Inl e
     | Inr (None, rest) \<Rightarrow> Inr (None, rest)
     | Inr (Some inner, rest) \<Rightarrow> Inr (Some (Unary (py ''~'') inner), rest))"
  by (subst parse_prefix_limited.simps)
    (simp add: is_constant_single isalpha_char_ascii Formula_init_Unary is_unary_def
      split: sum.splits option.splits prod.splits)

lemma parse_prefix_limited_paren:
  "parse_prefix_limited (Suc n) (40 # cs) =
    (case parse_prefix_limited n cs of
       Inl e \<Rightarrow> Inl e
     | Inr (None, rest) \<Rightarrow> Inr (None, rest)
     | Inr (Some left, rest) \<Rightarrow>
         (case scan_operator rest of
            None \<Rightarrow> Inr (None, py ''expected binary operator'')
          | Some (op, rest1) \<Rightarrow>
              (case parse_prefix_limited n rest1 of
                 Inl e \<Rightarrow> Inl e
               | Inr (None, rest2) \<Rightarrow> Inr (None, rest2)
               | Inr (Some right, rest2) \<Rightarrow>
                   if \<not> (length rest2 > 0 \<and> hd rest2 = 41) then
                     Inr (None, py ''expected '' @ [39, 41, 39])
                   else
                     (case Formula_init op (Some left) (Some right) of
                        Inl e \<Rightarrow> Inl e
                      | Inr f \<Rightarrow> Inr (Some f, drop 1 rest2)))))"
  by (subst parse_prefix_limited.simps) (simp add: is_constant_single isalpha_char_ascii)

lemma parse_prefix_limited_cases:
  "parse_prefix_limited limit s = Inl RecursionError \<or>
   parse_prefix_limited limit s = parse_prefix s"
proof (induction limit arbitrary: s)
  case 0
  show ?case by (simp add: parse_prefix_limited.simps)
next
  case (Suc n)
  show ?case
  proof (cases s)
    case Nil
    then show ?thesis
      by (simp add: parse_prefix_limited_Nil parse_prefix_Nil)
  next
    case (Cons c cs)
    consider (tilde) "c = 126" | (paren) "c = 40" | (flat) "c \<noteq> 126" "c \<noteq> 40"
      by blast
    then show ?thesis
    proof cases
      case flat
      then show ?thesis
        using Cons by (simp add: parse_prefix_limited_flat)
    next
      case tilde
      from Suc.IH[of cs] show ?thesis
      proof
        assume "parse_prefix_limited n cs = Inl RecursionError"
        then show ?thesis
          using Cons tilde by (simp add: parse_prefix_limited_tilde)
      next
        assume "parse_prefix_limited n cs = parse_prefix cs"
        then show ?thesis
          using Cons tilde by (simp add: parse_prefix_limited_tilde parse_prefix_tilde)
      qed
    next
      case paren
      from Suc.IH[of cs] show ?thesis
      proof
        assume "parse_prefix_limited n cs = Inl RecursionError"
        then show ?thesis
          using Cons paren by (simp add: parse_prefix_limited_paren)
      next
        assume eq: "parse_prefix_limited n cs = parse_prefix cs"
        from parse_prefix_ok[of cs] obtain fo rest where
          res: "parse_prefix cs = Inr (fo, rest)"
          by auto
        show ?thesis
        proof (cases "\<exists>left op rest1. fo = Some left \<and> scan_operator rest = Some (op, rest1)")
          case False
          then have "fo = None \<or> (\<exists>left. fo = Some left \<and> scan_operator rest = None)"
            by (cases fo; cases "scan_operator rest") auto
          then have "parse_prefix_limited (Suc n) s = parse_prefix s"
            using Cons paren eq res
            by (auto simp: parse_prefix_limited_paren parse_prefix_paren)
          then show ?thesis ..
        next
          case True
          then obtain left op rest1 where
            l: "fo = Some left" "scan_operator rest = Some (op, rest1)"
            by blast
          from Suc.IH[of rest1] show ?thesis
          proof
            assume "parse_prefix_limited n rest1 = Inl RecursionError"
            then have "parse_prefix_limited (Suc n) s = Inl RecursionError"
              using Cons paren eq res l by (simp add: parse_prefix_limited_paren)
            then show ?thesis ..
          next
            assume "parse_prefix_limited n rest1 = parse_prefix rest1"
            then have "parse_prefix_limited (Suc n) s = parse_prefix s"
              using Cons paren eq res l
              by (simp add: parse_prefix_limited_paren parse_prefix_paren)
            then show ?thesis ..
          qed
        qed
      qed
    qed
  qed
qed

lemma openings_append: "openings (a @ b) = openings a + openings b"
  by (simp add: openings_def)

lemma parse_prefix_limited_returns:
  "openings s < limit \<Longrightarrow> parse_prefix_limited limit s = parse_prefix s"
proof (induction limit arbitrary: s)
  case 0
  then show ?case by simp
next
  case (Suc n)
  show ?case
  proof (cases s)
    case Nil
    then show ?thesis
      by (simp add: parse_prefix_limited_Nil parse_prefix_Nil)
  next
    case (Cons c cs)
    consider (tilde) "c = 126" | (paren) "c = 40" | (flat) "c \<noteq> 126" "c \<noteq> 40"
      by blast
    then show ?thesis
    proof cases
      case flat
      then show ?thesis
        using Cons by (simp add: parse_prefix_limited_flat)
    next
      case tilde
      with Suc.prems Cons have "openings cs < n"
        by (simp add: openings_def)
      from Suc.IH[OF this] show ?thesis
        using Cons tilde by (simp add: parse_prefix_limited_tilde parse_prefix_tilde)
    next
      case paren
      with Suc.prems Cons have o: "openings cs < n"
        by (simp add: openings_def)
      note eq = Suc.IH[OF o]
      from parse_prefix_ok[of cs] obtain fo rest where
        res: "parse_prefix cs = Inr (fo, rest)" "parse_result_ok cs (fo, rest)"
        by auto
      show ?thesis
      proof (cases "\<exists>left op rest1. fo = Some left \<and> scan_operator rest = Some (op, rest1)")
        case False
        then have "fo = None \<or> (\<exists>left. fo = Some left \<and> scan_operator rest = None)"
          by (cases fo; cases "scan_operator rest") auto
        then show ?thesis
          using Cons paren eq res(1)
          by (auto simp: parse_prefix_limited_paren parse_prefix_paren)
      next
        case True
        then obtain left op rest1 where
          l: "fo = Some left" "scan_operator rest = Some (op, rest1)"
          by blast
        from res(2) l(1) have "cs = repr left @ rest"
          by (simp add: parse_result_ok_def)
        moreover from scan_operator_sound[OF l(2)] have "rest = op @ rest1"
          by simp
        ultimately have "openings rest1 \<le> openings cs"
          by (simp add: openings_append)
        with o have "openings rest1 < n"
          by simp
        from Suc.IH[OF this] show ?thesis
          using Cons paren eq res(1) l
          by (simp add: parse_prefix_limited_paren parse_prefix_paren)
      qed
    qed
  qed
qed

lemma parse_prefix_limited_tildes:
  "parse_prefix_limited n (replicate n 126 @ r) = Inl RecursionError"
  by (induction n) (simp_all add: parse_prefix_limited.simps(1) parse_prefix_limited_tilde)

text \<open>
  Claim C6, as amended.  \<^verbatim>\<open>_parse_prefix\<close> raises no exception but \<^verbatim>\<open>RecursionError\<close>, and not
  even that when the input has fewer \<^verbatim>\<open>~\<close> and \<^verbatim>\<open>(\<close> characters than the recursion limit
  leaves nested calls.  When it returns, the pair is a formula and the unparsed suffix,
  where the formula's standard string followed by the suffix is the input and no
  formula's standard string is a longer prefix of the input; or it is no formula and one
  of the messages, and then no prefix of the input is the standard string of a formula.
  \<^verbatim>\<open>is_formula\<close> raises when \<^verbatim>\<open>_parse_prefix\<close> does, and is otherwise true exactly when a
  formula comes back with the empty suffix.
\<close>

theorem parse_prefix_limited_contract:
  "((parse_prefix_limited limit s = Inl RecursionError \<and>
     is_formula_limited limit s = Inl RecursionError) \<or>
    (\<exists>res. parse_prefix_limited limit s = Inr res \<and>
       (case res of
          (Some f, rest) \<Rightarrow>
            well_formed f \<and> s = repr f @ rest \<and>
            (\<forall>g r. well_formed g \<and> s = repr g @ r \<longrightarrow> length (repr g) \<le> length (repr f))
        | (None, msg) \<Rightarrow>
            error_message msg \<and> \<not> (\<exists>g r. well_formed g \<and> s = repr g @ r)) \<and>
       is_formula_limited limit s = Inr (fst res \<noteq> None \<and> snd res = []))) \<and>
   (openings s < limit \<longrightarrow> (\<exists>res. parse_prefix_limited limit s = Inr res))"
proof -
  from parse_prefix_value_contract[of s] obtain res where
    res: "parse_prefix s = Inr res"
      "case res of
          (Some f, rest) \<Rightarrow>
            well_formed f \<and> s = repr f @ rest \<and>
            (\<forall>g r. well_formed g \<and> s = repr g @ r \<longrightarrow> length (repr g) \<le> length (repr f))
        | (None, msg) \<Rightarrow>
            error_message msg \<and> \<not> (\<exists>g r. well_formed g \<and> s = repr g @ r)"
    by blast
  have first: "(parse_prefix_limited limit s = Inl RecursionError \<and>
     is_formula_limited limit s = Inl RecursionError) \<or>
    (\<exists>res. parse_prefix_limited limit s = Inr res \<and>
       (case res of
          (Some f, rest) \<Rightarrow>
            well_formed f \<and> s = repr f @ rest \<and>
            (\<forall>g r. well_formed g \<and> s = repr g @ r \<longrightarrow> length (repr g) \<le> length (repr f))
        | (None, msg) \<Rightarrow>
            error_message msg \<and> \<not> (\<exists>g r. well_formed g \<and> s = repr g @ r)) \<and>
       is_formula_limited limit s = Inr (fst res \<noteq> None \<and> snd res = []))"
    using parse_prefix_limited_cases[of limit s]
  proof
    assume "parse_prefix_limited limit s = Inl RecursionError"
    then show ?thesis
      by (simp add: is_formula_limited_def)
  next
    assume eq: "parse_prefix_limited limit s = parse_prefix s"
    with res(1) have "is_formula_limited limit s = Inr (fst res \<noteq> None \<and> snd res = [])"
      by (cases res) (simp add: is_formula_limited_def)
    with eq res show ?thesis
      by auto
  qed
  have "\<exists>res. parse_prefix_limited limit s = Inr res" if "openings s < limit"
    using parse_prefix_limited_returns[OF that] res(1) by simp
  with first show ?thesis
    by blast
qed

theorem parse_prefix_limited_contract_witness:
  "openings (py ''~x12&q'') < 3 \<and>
   parse_prefix_limited 3 (py ''~x12&q'') =
     Inr (Some (Unary (py ''~'') (Leaf (py ''x12''))), py ''&q'') \<and>
   well_formed (Unary (py ''~'') (Leaf (py ''x12''))) \<and>
   py ''~x12&q'' = repr (Unary (py ''~'') (Leaf (py ''x12''))) @ py ''&q'' \<and>
   is_formula_limited 3 (py ''~x12&q'') = Inr False"
proof -
  have o: "openings (py ''~x12&q'') < 3"
    by (simp add: openings_def)
  have p: "parse_prefix_limited 3 (py ''~x12&q'') =
      Inr (Some (Unary (py ''~'') (Leaf (py ''x12''))), py ''&q'')"
    by code_simp
  from parse_prefix_limited_contract[of 3 "py ''~x12&q''"] o show ?thesis
    unfolding p by simp
qed

text \<open>
  Claim C6, as stated for every input string, fails: with room for 1000 nested calls, the
  most the default recursion limit can leave, \<^verbatim>\<open>_parse_prefix\<close> raises \<^verbatim>\<open>RecursionError\<close> on
  the string of 1000 characters \<^verbatim>\<open>~\<close> followed by \<^verbatim>\<open>p\<close>, a prefix of which is a formula.
\<close>

theorem parse_prefix_recursion_counterexample:
  "parse_prefix_limited 1000 (replicate 1000 126 @ py ''p'') = Inl RecursionError"
  by (rule parse_prefix_limited_tildes)

section \<open>The Polish parser: what it reads back\<close>

text \<open>
  The formulas whose binary operators are all among \<^verbatim>\<open>&\<close>, \<^verbatim>\<open>|\<close> and \<^verbatim>\<open>->\<close>, the three
  operators \<^verbatim>\<open>_parse_polish_prefix\<close> has a branch for.
\<close>

fun polish_parsable :: "Formula \<Rightarrow> bool" where
  "polish_parsable (Leaf r) = True"
| "polish_parsable (Unary r f) = polish_parsable f"
| "polish_parsable (Binary r f s) =
     (r \<in> {py ''&'', py ''|'', py ''->''} \<and> polish_parsable f \<and> polish_parsable s)"

lemma parse_polish_prefix_constant:
  "is_constant [c] \<Longrightarrow> parse_polish_prefix (c # cs) = Inr (Some (Leaf [c]), cs)"
  by (subst parse_polish_prefix.simps)
    (auto simp: Formula_init_Leaf startswith_def is_constant_single)

lemma parse_polish_prefix_variable:
  assumes "112 \<le> c" and "c \<le> 122"
  shows "parse_polish_prefix (c # cs) =
    Inr (Some (Leaf (c # takeWhile isdecimal_char cs)), dropWhile isdecimal_char cs)"
proof -
  have t: "take (length (takeWhile isdecimal_char cs)) cs = takeWhile isdecimal_char cs"
    by (simp flip: takeWhile_eq_take)
  have d: "drop (length (takeWhile isdecimal_char cs)) cs = dropWhile isdecimal_char cs"
    by (simp flip: dropWhile_eq_drop)
  have v: "is_variable (c # takeWhile isdecimal_char cs) = Inr True"
    using assms by (simp add: is_variable_scanned)
  show ?thesis
    using assms
    by (subst parse_polish_prefix.simps)
      (auto simp: Let_def scan_decimals_Cons t d v Formula_init_Leaf startswith_def
        is_constant_single isalpha_char_ascii)
qed

lemma parse_polish_prefix_tilde:
  "parse_polish_prefix (126 # cs) =
    (case parse_polish_prefix cs of
       Inl e \<Rightarrow> Inl e
     | Inr (None, rest) \<Rightarrow> Inr (None, rest)
     | Inr (Some inner, rest) \<Rightarrow> Inr (Some (Unary (py ''~'') inner), rest))"
  by (subst parse_polish_prefix.simps)
    (simp add: is_constant_single startswith_def Formula_init_Unary is_unary_def
      split: sum.splits option.splits prod.splits)

lemma parse_polish_prefix_arrow:
  "parse_polish_prefix (45 # 62 # cs) =
    (case parse_polish_prefix cs of
       Inl e \<Rightarrow> Inl e
     | Inr (None, rest) \<Rightarrow> Inr (None, rest)
     | Inr (Some left, rest) \<Rightarrow>
         (case parse_polish_prefix rest of
            Inl e \<Rightarrow> Inl e
          | Inr (None, rest1) \<Rightarrow> Inr (None, rest1)
          | Inr (Some right, rest1) \<Rightarrow> Inr (Some (Binary (py ''->'') left right), rest1)))"
  by (subst parse_polish_prefix.simps)
    (simp add: startswith_def is_constant_single Formula_init_Binary is_binary_def
      split: sum.splits option.splits prod.splits)

lemma parse_polish_prefix_and:
  "parse_polish_prefix (38 # cs) =
    (case parse_polish_prefix cs of
       Inl e \<Rightarrow> Inl e
     | Inr (None, rest) \<Rightarrow> Inr (None, rest)
     | Inr (Some left, rest) \<Rightarrow>
         (case parse_polish_prefix rest of
            Inl e \<Rightarrow> Inl e
          | Inr (None, rest1) \<Rightarrow> Inr (None, rest1)
          | Inr (Some right, rest1) \<Rightarrow> Inr (Some (Binary (py ''&'') left right), rest1)))"
  by (subst parse_polish_prefix.simps)
    (simp add: startswith_def is_constant_single Formula_init_Binary is_binary_def
      split: sum.splits option.splits prod.splits)

lemma parse_polish_prefix_or:
  "parse_polish_prefix (124 # cs) =
    (case parse_polish_prefix cs of
       Inl e \<Rightarrow> Inl e
     | Inr (None, rest) \<Rightarrow> Inr (None, rest)
     | Inr (Some left, rest) \<Rightarrow>
         (case parse_polish_prefix rest of
            Inl e \<Rightarrow> Inl e
          | Inr (None, rest1) \<Rightarrow> Inr (None, rest1)
          | Inr (Some right, rest1) \<Rightarrow> Inr (Some (Binary (py ''|'') left right), rest1)))"
  by (subst parse_polish_prefix.simps)
    (simp add: startswith_def is_constant_single Formula_init_Binary is_binary_def
      split: sum.splits option.splits prod.splits)

lemma polish_hd: "well_formed f \<Longrightarrow> polish f \<noteq> [] \<and> \<not> isdecimal_char (hd (polish f))"
proof (induction f)
  case (Leaf r)
  then show ?case
    by (cases r) (auto simp: is_variable_def is_constant_def isdecimal_char_ascii)
next
  case (Unary r f)
  then show ?case by (simp add: isdecimal_char_ascii)
next
  case (Binary r f s)
  then show ?case using is_binary_hd[of r] by simp
qed

lemma parse_polish_prefix_polish:
  assumes "well_formed g" and "polish_parsable g" and "r = [] \<or> \<not> isdecimal_char (hd r)"
  shows "parse_polish_prefix (polish g @ r) = Inr (Some g, r)"
  using assms
proof (induction g arbitrary: r)
  case (Leaf r0)
  show ?case
  proof (cases "is_constant r0")
    case True
    then obtain c where "r0 = [c]" "is_constant [c]"
      by (auto simp: is_constant_def)
    then show ?thesis
      by (simp add: parse_polish_prefix_constant)
  next
    case False
    with Leaf have "is_variable r0 = Inr True" by simp
    then obtain c ds0 where r0: "r0 = c # ds0" "112 \<le> c" "c \<le> 122" "list_all isdecimal_char ds0"
      by (auto simp: is_variable_iff split: list.splits)
    have "takeWhile isdecimal_char r = []" "dropWhile isdecimal_char r = r"
      using Leaf.prems(3) by (cases r; simp)+
    then have "takeWhile isdecimal_char (ds0 @ r) = ds0" "dropWhile isdecimal_char (ds0 @ r) = r"
      using r0(4) by (simp_all add: list_all_iff takeWhile_append2 dropWhile_append2)
    with r0 show ?thesis
      by (simp add: parse_polish_prefix_variable)
  qed
next
  case (Unary r0 g)
  then show ?case
    by (simp add: is_unary_eq parse_polish_prefix_tilde)
next
  case (Binary r0 f s)
  then have op: "r0 = [38] \<or> r0 = [124] \<or> r0 = [45, 62]"
    by auto
  have 1: "parse_polish_prefix (polish f @ polish s @ r) = Inr (Some f, polish s @ r)"
    using Binary.prems polish_hd[of s] by (intro Binary.IH(1)) auto
  have 2: "parse_polish_prefix (polish s @ r) = Inr (Some s, r)"
    using Binary.prems by (intro Binary.IH(2)) auto
  from op show ?case
  proof (elim disjE)
    assume "r0 = [38]"
    then show ?thesis
      using parse_polish_prefix_and[of "polish f @ polish s @ r"] 1 2 by simp
  next
    assume "r0 = [124]"
    then show ?thesis
      using parse_polish_prefix_or[of "polish f @ polish s @ r"] 1 2 by simp
  next
    assume "r0 = [45, 62]"
    then show ?thesis
      using parse_polish_prefix_arrow[of "polish f @ polish s @ r"] 1 2 by simp
  qed
qed

lemma parse_polish_polish:
  "well_formed f \<Longrightarrow> polish_parsable f \<Longrightarrow> parse_polish (polish f) = Inr f"
  using parse_polish_prefix_polish[of f "[]"] by (simp add: parse_polish_def)

text \<open>
  Claim C3 does not hold of the code.  \<^verbatim>\<open>polish()\<close> prints all seven binary operators,
  and \<^verbatim>\<open>_parse_prefix\<close> reads all seven, but \<^verbatim>\<open>_parse_polish_prefix\<close> has no branch for
  \<^verbatim>\<open>+\<close>, \<^verbatim>\<open><->\<close>, \<^verbatim>\<open>-&\<close> and \<^verbatim>\<open>-|\<close>: on the Polish string \<^verbatim>\<open>+pq\<close> of the formula \<^verbatim>\<open>(p+q)\<close> it
  returns no formula and the message \<^verbatim>\<open>unexpected token: +\<close>, so that the assertion of
  \<^verbatim>\<open>parse_polish\<close> fails; the same happens for the other three operators.  The standard
  string of the same formula is parsed back.
\<close>

theorem parse_polish_missing_operators:
  "well_formed (Binary (py ''+'') (Leaf (py ''p'')) (Leaf (py ''q''))) \<and>
   polish (Binary (py ''+'') (Leaf (py ''p'')) (Leaf (py ''q''))) = py ''+pq'' \<and>
   parse_polish_prefix (py ''+pq'') = Inr (None, py ''unexpected token: +'') \<and>
   parse_polish (py ''+pq'') = Inl AssertionError \<and>
   parse_polish (py ''<->pq'') = Inl AssertionError \<and>
   parse_polish (py ''-&pq'') = Inl AssertionError \<and>
   parse_polish (py ''-|pq'') = Inl AssertionError \<and>
   parse (py ''(p+q)'') = Inr (Binary (py ''+'') (Leaf (py ''p'')) (Leaf (py ''q'')))"
  by code_simp

section \<open>Synthesis: the formulas built and their truth tables\<close>

text \<open>
  The formulas the synthesis functions build, without the error plumbing: \<open>lit b v\<close> is
  the variable \<open>v\<close> or its negation, \<open>joined op G acc xs\<close> folds \<open>op\<close> over the formulas
  \<open>G x\<close> from the left, starting from \<open>acc\<close>, and \<open>clause op pol m\<close> is the clause of the
  model \<open>m\<close> over its sorted names (\<open>pol = True\<close>: each name as the model has it, joined
  by \<open>op\<close>; \<open>pol = False\<close>: each name negated where the model has it true).
\<close>

definition lit :: "bool \<Rightarrow> pystr \<Rightarrow> Formula" where
  "lit b v = (if b then Leaf v else Unary (py ''~'') (Leaf v))"

definition joined :: "pystr \<Rightarrow> ('a \<Rightarrow> Formula) \<Rightarrow> Formula \<Rightarrow> 'a list \<Rightarrow> Formula" where
  "joined op G acc xs = foldl (\<lambda>a x. Binary op a (G x)) acc xs"

definition clause :: "pystr \<Rightarrow> bool \<Rightarrow> Model \<Rightarrow> Formula" where
  "clause op pol m =
     (let vs = sort (map fst m)
      in joined op (\<lambda>v. lit (valuation m v = pol) v) (lit (valuation m (hd vs) = pol) (hd vs))
           (tl vs))"

lemma assert_variables_iff:
  "(assert_variables vs = Inr ()) = (\<forall>v \<in> set vs. is_variable v = Inr True)"
  by (induction vs) (auto split: sum.splits)

lemma negate_variable: "is_variable v = Inr True \<Longrightarrow> negate v = Inr (Unary (py ''~'') (Leaf v))"
  by (simp add: negate_def Formula_init_Leaf Formula_init_Unary is_unary_def)

lemma literal_lit:
  "is_variable v = Inr True \<Longrightarrow> v \<in> fst ` set m \<Longrightarrow>
   literal m v = Inr (lit (valuation m v) v)"
  using lookup_valuation[of v m]
  by (simp add: literal_def lit_def Formula_init_Leaf negate_variable)

lemma negated_literal_lit:
  "is_variable v = Inr True \<Longrightarrow> v \<in> fst ` set m \<Longrightarrow>
   negated_literal m v = Inr (lit (\<not> valuation m v) v)"
  using lookup_valuation[of v m]
  by (simp add: negated_literal_def lit_def Formula_init_Leaf negate_variable)

lemma join_literals_joined:
  "is_binary op \<Longrightarrow> \<forall>v \<in> set vs. g v = Inr (G v) \<Longrightarrow>
   join_literals op g vs acc = Inr (joined op G acc vs)"
  by (induction vs arbitrary: acc) (auto simp: joined_def Formula_init_Binary)

lemma join_clauses_joined:
  "is_binary op \<Longrightarrow> \<forall>m \<in> set ms. g m = Inr (G m) \<Longrightarrow>
   join_clauses op g ms acc = Inr (joined op G acc ms)"
  by (induction ms arbitrary: acc) (auto simp: joined_def Formula_init_Binary)

lemma joined_and_value:
  "op = py ''&'' \<Longrightarrow>
   textbook_value val (joined op G acc xs) =
   (textbook_value val acc \<and> (\<forall>x \<in> set xs. textbook_value val (G x)))"
  by (induction xs arbitrary: acc) (auto simp: joined_def truth_table_def)

lemma joined_or_value:
  "op = py ''|'' \<Longrightarrow>
   textbook_value val (joined op G acc xs) =
   (textbook_value val acc \<or> (\<exists>x \<in> set xs. textbook_value val (G x)))"
  by (induction xs arbitrary: acc) (auto simp: joined_def truth_table_def)

lemma joined_variables:
  "variables (joined op G acc xs) = variables acc \<union> (\<Union>x \<in> set xs. variables (G x))"
  by (induction xs arbitrary: acc) (auto simp: joined_def)

lemma joined_well_formed:
  "is_binary op \<Longrightarrow> well_formed acc \<Longrightarrow> \<forall>x \<in> set xs. well_formed (G x) \<Longrightarrow>
   well_formed (joined op G acc xs)"
  by (induction xs arbitrary: acc) (auto simp: joined_def)

lemma lit_facts:
  assumes "is_variable v = Inr True"
  shows "textbook_value val (lit b v) = (val v = b)" "variables (lit b v) = {v}"
    "well_formed (lit b v)"
  using assms by (auto simp: lit_def is_unary_def)

lemma hd_tl_set: "xs \<noteq> [] \<Longrightarrow> insert (hd xs) (set (tl xs)) = set xs"
  by (cases xs) auto

lemma sorted_keys:
  assumes "is_model m = Inr True" and "m \<noteq> []"
  shows "sort (map fst m) \<noteq> []"
    and "insert (hd (sort (map fst m))) (set (tl (sort (map fst m)))) = fst ` set m"
    and "hd (sort (map fst m)) \<in> fst ` set m"
    and "set (tl (sort (map fst m))) \<subseteq> fst ` set m"
    and "\<forall>v \<in> fst ` set m. is_variable v = Inr True"
proof -
  let ?vs = "sort (map fst m)"
  show ne: "?vs \<noteq> []"
    using assms(2) by (metis length_sort length_map length_0_conv)
  then have "?vs = hd ?vs # tl ?vs"
    by simp
  then have "set ?vs = insert (hd ?vs) (set (tl ?vs))"
    by (metis list.simps(15))
  then show s: "insert (hd ?vs) (set (tl ?vs)) = fst ` set m"
    by simp
  from s show "hd ?vs \<in> fst ` set m" and "set (tl ?vs) \<subseteq> fst ` set m"
    by blast+
  show "\<forall>v \<in> fst ` set m. is_variable v = Inr True"
    using assms(1) by (simp add: is_model_True)
qed

lemma synthesize_for_model_clause:
  assumes "is_model m = Inr True" and "m \<noteq> []"
  shows "synthesize_for_model m = Inr (clause (py ''&'') True m)"
proof -
  let ?vs = "sort (map fst m)"
  note k = sorted_keys[OF assms]
  have "\<forall>v \<in> set (tl ?vs). literal m v = Inr (lit (valuation m v) v)"
    using k(4,5) by (auto intro!: literal_lit)
  then have "join_literals (py ''&'') (literal m) (tl ?vs) acc =
      Inr (joined (py ''&'') (\<lambda>v. lit (valuation m v) v) acc (tl ?vs))" for acc
    by (intro join_literals_joined) (simp_all add: is_binary_def)
  moreover have "literal m (hd ?vs) = Inr (lit (valuation m (hd ?vs)) (hd ?vs))"
    using k(3,5) by (intro literal_lit) auto
  ultimately show ?thesis
    using assms by (simp add: synthesize_for_model_def clause_def Let_def)
qed

lemma synthesize_for_all_except_model_clause:
  assumes "is_model m = Inr True" and "m \<noteq> []"
  shows "synthesize_for_all_except_model m = Inr (clause (py ''|'') False m)"
proof -
  let ?vs = "sort (map fst m)"
  note k = sorted_keys[OF assms]
  have "\<forall>v \<in> set (tl ?vs). negated_literal m v = Inr (lit (\<not> valuation m v) v)"
    using k(4,5) by (auto intro!: negated_literal_lit)
  then have "join_literals (py ''|'') (negated_literal m) (tl ?vs) acc =
      Inr (joined (py ''|'') (\<lambda>v. lit (\<not> valuation m v) v) acc (tl ?vs))" for acc
    by (intro join_literals_joined) (simp_all add: is_binary_def)
  moreover have "negated_literal m (hd ?vs) = Inr (lit (\<not> valuation m (hd ?vs)) (hd ?vs))"
    using k(3,5) by (intro negated_literal_lit) auto
  ultimately show ?thesis
    using assms by (simp add: synthesize_for_all_except_model_def clause_def Let_def)
qed

lemma clause_facts:
  assumes "is_model m = Inr True" and "m \<noteq> []"
  shows "op = py ''&'' \<Longrightarrow> textbook_value val (clause op True m) =
           (\<forall>v \<in> fst ` set m. val v = valuation m v)"
    and "op = py ''|'' \<Longrightarrow> textbook_value val (clause op False m) =
           (\<exists>v \<in> fst ` set m. val v \<noteq> valuation m v)"
    and "variables (clause op pol m) = fst ` set m"
    and "is_binary op \<Longrightarrow> well_formed (clause op pol m)"
proof -
  let ?vs = "sort (map fst m)"
  note k = sorted_keys[OF assms]
  have var: "is_variable v = Inr True" if "v \<in> insert (hd ?vs) (set (tl ?vs))" for v
    using that k(2,5) by blast
  have "textbook_value val (clause (py ''&'') True m) =
      (\<forall>v \<in> insert (hd ?vs) (set (tl ?vs)). textbook_value val (lit (valuation m v) v))"
    by (simp add: clause_def Let_def joined_and_value)
  also have "\<dots> = (\<forall>v \<in> insert (hd ?vs) (set (tl ?vs)). val v = valuation m v)"
    using var by (intro ball_cong refl) (simp add: lit_facts)
  finally show "textbook_value val (clause op True m) =
           (\<forall>v \<in> fst ` set m. val v = valuation m v)" if "op = py ''&''"
    unfolding k(2) that .
  have "textbook_value val (clause (py ''|'') False m) =
      (\<exists>v \<in> insert (hd ?vs) (set (tl ?vs)). textbook_value val (lit (\<not> valuation m v) v))"
    by (simp add: clause_def Let_def joined_or_value)
  also have "\<dots> = (\<exists>v \<in> insert (hd ?vs) (set (tl ?vs)). val v \<noteq> valuation m v)"
    using var by (intro bex_cong refl) (simp add: lit_facts)
  finally show "textbook_value val (clause op False m) =
           (\<exists>v \<in> fst ` set m. val v \<noteq> valuation m v)" if "op = py ''|''"
    unfolding k(2) that .
  have "variables (clause op pol m) =
      (\<Union>v \<in> insert (hd ?vs) (set (tl ?vs)). variables (lit (valuation m v = pol) v))"
    by (simp add: clause_def Let_def joined_variables)
  also have "\<dots> = (\<Union>v \<in> insert (hd ?vs) (set (tl ?vs)). {v})"
    using var by (intro SUP_cong refl) (simp add: lit_facts)
  finally show "variables (clause op pol m) = fst ` set m"
    unfolding k(2) by simp
  show "well_formed (clause op pol m)" if "is_binary op"
    unfolding clause_def Let_def
    using that var by (intro joined_well_formed) (auto simp: lit_facts)
qed

lemma counter_model_is_model:
  "assert_variables vars = Inr () \<Longrightarrow> is_model (counter_model vars k) = Inr True"
  by (simp add: is_model_True counter_model_keys assert_variables_iff)

lemma counter_model_key_set: "fst ` set (counter_model vars k) = set vars"
  using counter_model_keys[of vars k] by (metis set_map)

lemma counter_model_nonempty: "vars \<noteq> [] \<Longrightarrow> counter_model vars k \<noteq> []"
  using counter_model_keys[of vars k] by auto

lemma valuation_counter_model:
  "distinct vars \<Longrightarrow> i < length vars \<Longrightarrow>
   valuation (counter_model vars k) (vars ! i) = bit k (length vars - 1 - i)"
  by (simp add: valuation_def counter_model_lookup)

lemma not_bit_above: "k < 2 ^ n \<Longrightarrow> n \<le> b \<Longrightarrow> \<not> bit (k :: nat) b"
proof -
  assume "k < 2 ^ n" "n \<le> b"
  then have "k < 2 ^ b"
    by (meson less_le_trans one_le_numeral power_increasing)
  then show ?thesis
    by (simp add: bit_iff_odd)
qed

lemma counter_models_agree_iff:
  assumes "distinct vars" and "j < 2 ^ length vars" and "k < 2 ^ length vars"
  shows "(\<forall>v \<in> set vars. valuation (counter_model vars k) v = valuation (counter_model vars j) v)
         = (j = k)"
proof
  assume a: "\<forall>v \<in> set vars. valuation (counter_model vars k) v = valuation (counter_model vars j) v"
  have "bit j b = bit k b" for b
  proof (cases "b < length vars")
    case True
    then have i: "length vars - 1 - b < length vars" "length vars - 1 - (length vars - 1 - b) = b"
      by auto
    from a i(1) have "valuation (counter_model vars k) (vars ! (length vars - 1 - b)) =
        valuation (counter_model vars j) (vars ! (length vars - 1 - b))"
      by simp
    then show ?thesis
      using assms(1) i by (simp add: valuation_counter_model)
  next
    case False
    then show ?thesis
      using assms(2,3) by (simp add: not_bit_above)
  qed
  then show "j = k"
    by (rule bit_eqI)
qed simp

lemma set_select:
  "length vals = length ms \<Longrightarrow>
   set (select want ms vals) = {ms ! i | i. i < length vals \<and> vals ! i = want}"
  by (force simp: select_def in_set_enumerate_eq image_iff)

lemma truth_values_map:
  "\<forall>m \<in> set ms. evaluate f m = Inr (g m) \<Longrightarrow> truth_values f ms = Inr (map g ms)"
  by (induction ms) auto

lemma contradiction_init:
  "is_variable p = Inr True \<Longrightarrow>
   (case Formula_init p None None of
      Inl e \<Rightarrow> Inl e
    | Inr x \<Rightarrow>
        (case negate p of
           Inl e \<Rightarrow> Inl e
         | Inr nx \<Rightarrow> Formula_init op (Some x) (Some nx))) =
   Formula_init op (Some (Leaf p)) (Some (Unary (py ''~'') (Leaf p)))"
  by (simp add: Formula_init_Leaf negate_variable)

lemma synthesize_table:
  assumes "vars \<noteq> []" and "distinct vars" and "assert_variables vars = Inr ()"
    and "length vals = 2 ^ length vars"
  shows "\<exists>f. synthesize vars vals = Inr f \<and> well_formed f \<and> variables f \<subseteq> set vars \<and>
           (\<forall>k < 2 ^ length vars.
              textbook_value (valuation (counter_model vars k)) f = vals ! k) \<and>
           ((\<forall>k < 2 ^ length vars. \<not> vals ! k) \<longrightarrow>
              f = Binary (py ''&'') (Leaf (hd vars)) (Unary (py ''~'') (Leaf (hd vars))))"
proof -
  let ?n = "length vars"
  let ?ms = "map (counter_model vars) [0..<2 ^ ?n]"
  let ?tms = "select True ?ms vals"
  have am: "all_models vars = Inr ?ms"
    using assms by (simp add: all_models_distinct)
  have len: "length vals = length ?ms"
    using assms(4) by simp
  have p: "is_variable (hd vars) = Inr True" "hd vars \<in> set vars"
    using assms(1,3) by (simp_all add: assert_variables_iff)
  have tset: "set ?tms = {counter_model vars j | j. j < 2 ^ ?n \<and> vals ! j}"
    using set_select[OF len, of True] assms(4) by auto
  show ?thesis
  proof (cases "?tms = []")
    case True
    with tset have allF: "\<forall>j < 2 ^ ?n. \<not> vals ! j"
      by auto
    let ?f = "Binary (py ''&'') (Leaf (hd vars)) (Unary (py ''~'') (Leaf (hd vars)))"
    have "synthesize vars vals = Inr ?f"
      using assms am len True p
      by (simp add: synthesize_def Let_def contradiction_init Formula_init_Binary is_binary_def)
    moreover have "well_formed ?f" "variables ?f \<subseteq> set vars"
      using p by (simp_all add: is_binary_def is_unary_def)
    moreover have "textbook_value val ?f = False" for val
      using p by (simp add: truth_table_def)
    ultimately show ?thesis
      using allF by auto
  next
    case False
    let ?C = "clause (py ''&'') True"
    let ?f = "joined (py ''|'') ?C (?C (hd ?tms)) (tl ?tms)"
    have ht: "insert (hd ?tms) (set (tl ?tms)) = set ?tms"
      using False hd_tl_set by blast
    have m: "is_model m = Inr True \<and> m \<noteq> [] \<and> fst ` set m = set vars" if "m \<in> set ?tms" for m
    proof -
      from that tset obtain j where "m = counter_model vars j"
        by auto
      then show ?thesis
        using assms(1,3)
        by (simp add: counter_model_is_model counter_model_nonempty counter_model_key_set)
    qed
    have cl: "synthesize_for_model m = Inr (?C m)" if "m \<in> set ?tms" for m
      using m[OF that] by (simp add: synthesize_for_model_clause)
    have hdm: "hd ?tms \<in> set ?tms" and tlm: "set (tl ?tms) \<subseteq> set ?tms"
      using ht by blast+
    have "join_clauses (py ''|'') synthesize_for_model (tl ?tms) (?C (hd ?tms)) = Inr ?f"
      using cl tlm by (intro join_clauses_joined) (auto simp: is_binary_def)
    then have syn: "synthesize vars vals = Inr ?f"
      using assms am len False p cl[OF hdm]
      by (simp add: synthesize_def Let_def)
    have wf: "well_formed ?f"
      using m hdm tlm
      by (intro joined_well_formed clause_facts(4)) (auto simp: is_binary_def intro!: clause_facts(4))
    have vs: "variables ?f \<subseteq> set vars"
      using m hdm tlm by (auto simp: joined_variables clause_facts(3))
    have val: "textbook_value (valuation (counter_model vars k)) ?f = vals ! k"
      if k: "k < 2 ^ ?n" for k
    proof -
      let ?val = "valuation (counter_model vars k)"
      have "textbook_value ?val ?f = (\<exists>m \<in> insert (hd ?tms) (set (tl ?tms)). textbook_value ?val (?C m))"
        by (simp add: joined_or_value)
      also have "\<dots> = (\<exists>m \<in> set ?tms. textbook_value ?val (?C m))"
        unfolding ht ..
      also have "\<dots> = (\<exists>m \<in> set ?tms. \<forall>v \<in> set vars. ?val v = valuation m v)"
        using m by (intro bex_cong refl) (simp add: clause_facts(1))
      also have "\<dots> = (\<exists>j. j < 2 ^ ?n \<and> vals ! j \<and>
          (\<forall>v \<in> set vars. ?val v = valuation (counter_model vars j) v))"
        unfolding tset by auto
      also have "\<dots> = (\<exists>j. j < 2 ^ ?n \<and> vals ! j \<and> j = k)"
        using counter_models_agree_iff[OF assms(2) _ k] by blast
      also have "\<dots> = vals ! k"
        using k by auto
      finally show ?thesis .
    qed
    from hdm tset obtain j where "j < 2 ^ ?n" "vals ! j"
      by auto
    then have nf: "\<not> (\<forall>k < 2 ^ ?n. \<not> vals ! k)"
      by blast
    show ?thesis
    proof (intro exI[of _ ?f] conjI allI impI)
      show "synthesize vars vals = Inr ?f"
        by (rule syn)
      show "well_formed ?f"
        by (rule wf)
      show "variables ?f \<subseteq> set vars"
        by (rule vs)
      show "textbook_value (valuation (counter_model vars k)) ?f = vals ! k"
        if "k < 2 ^ ?n" for k
        by (rule val[OF that])
      show "?f = Binary (py ''&'') (Leaf (hd vars)) (Unary (py ''~'') (Leaf (hd vars)))"
        if "\<forall>k < 2 ^ ?n. \<not> vals ! k"
        using that nf by contradiction
    qed
  qed
qed

lemma synthesize_cnf_table:
  assumes "vars \<noteq> []" and "distinct vars" and "assert_variables vars = Inr ()"
    and "length vals = 2 ^ length vars"
  shows "\<exists>f. synthesize_cnf vars vals = Inr f \<and> well_formed f \<and> variables f \<subseteq> set vars \<and>
           (\<forall>k < 2 ^ length vars.
              textbook_value (valuation (counter_model vars k)) f = vals ! k) \<and>
           ((\<forall>k < 2 ^ length vars. vals ! k) \<longrightarrow>
              f = Binary (py ''|'') (Leaf (hd vars)) (Unary (py ''~'') (Leaf (hd vars))))"
proof -
  let ?n = "length vars"
  let ?ms = "map (counter_model vars) [0..<2 ^ ?n]"
  let ?fms = "select False ?ms vals"
  have am: "all_models vars = Inr ?ms"
    using assms by (simp add: all_models_distinct)
  have len: "length vals = length ?ms"
    using assms(4) by simp
  have p: "is_variable (hd vars) = Inr True" "hd vars \<in> set vars"
    using assms(1,3) by (simp_all add: assert_variables_iff)
  have fset: "set ?fms = {counter_model vars j | j. j < 2 ^ ?n \<and> \<not> vals ! j}"
    using set_select[OF len, of False] assms(4) by auto
  show ?thesis
  proof (cases "?fms = []")
    case True
    with fset have allT: "\<forall>j < 2 ^ ?n. vals ! j"
      by auto
    let ?f = "Binary (py ''|'') (Leaf (hd vars)) (Unary (py ''~'') (Leaf (hd vars)))"
    have "synthesize_cnf vars vals = Inr ?f"
      using assms am len True p
      by (simp add: synthesize_cnf_def Let_def contradiction_init Formula_init_Binary
          is_binary_def)
    moreover have "well_formed ?f" "variables ?f \<subseteq> set vars"
      using p by (simp_all add: is_binary_def is_unary_def)
    moreover have "textbook_value val ?f = True" for val
      using p by (simp add: truth_table_def)
    ultimately show ?thesis
      using allT by auto
  next
    case False
    let ?C = "clause (py ''|'') False"
    let ?f = "joined (py ''&'') ?C (?C (hd ?fms)) (tl ?fms)"
    have ht: "insert (hd ?fms) (set (tl ?fms)) = set ?fms"
      using False hd_tl_set by blast
    have m: "is_model m = Inr True \<and> m \<noteq> [] \<and> fst ` set m = set vars" if "m \<in> set ?fms" for m
    proof -
      from that fset obtain j where "m = counter_model vars j"
        by auto
      then show ?thesis
        using assms(1,3)
        by (simp add: counter_model_is_model counter_model_nonempty counter_model_key_set)
    qed
    have cl: "synthesize_for_all_except_model m = Inr (?C m)" if "m \<in> set ?fms" for m
      using m[OF that] by (simp add: synthesize_for_all_except_model_clause)
    have hdm: "hd ?fms \<in> set ?fms" and tlm: "set (tl ?fms) \<subseteq> set ?fms"
      using ht by blast+
    have "join_clauses (py ''&'') synthesize_for_all_except_model (tl ?fms) (?C (hd ?fms)) =
        Inr ?f"
      using cl tlm by (intro join_clauses_joined) (auto simp: is_binary_def)
    then have syn: "synthesize_cnf vars vals = Inr ?f"
      using assms am len False p cl[OF hdm]
      by (simp add: synthesize_cnf_def Let_def)
    have wf: "well_formed ?f"
      using m hdm tlm
      by (intro joined_well_formed clause_facts(4)) (auto simp: is_binary_def intro!: clause_facts(4))
    have vs: "variables ?f \<subseteq> set vars"
      using m hdm tlm by (auto simp: joined_variables clause_facts(3))
    have val: "textbook_value (valuation (counter_model vars k)) ?f = vals ! k"
      if k: "k < 2 ^ ?n" for k
    proof -
      let ?val = "valuation (counter_model vars k)"
      have "textbook_value ?val ?f = (\<forall>m \<in> insert (hd ?fms) (set (tl ?fms)). textbook_value ?val (?C m))"
        by (simp add: joined_and_value)
      also have "\<dots> = (\<forall>m \<in> set ?fms. textbook_value ?val (?C m))"
        unfolding ht ..
      also have "\<dots> = (\<forall>m \<in> set ?fms. \<not> (\<forall>v \<in> set vars. ?val v = valuation m v))"
        using m by (intro ball_cong refl) (simp add: clause_facts(2))
      also have "\<dots> = (\<forall>j. j < 2 ^ ?n \<and> \<not> vals ! j \<longrightarrow>
          \<not> (\<forall>v \<in> set vars. ?val v = valuation (counter_model vars j) v))"
        unfolding fset by auto
      also have "\<dots> = (\<forall>j. j < 2 ^ ?n \<and> \<not> vals ! j \<longrightarrow> j \<noteq> k)"
        using counter_models_agree_iff[OF assms(2) _ k] by blast
      also have "\<dots> = vals ! k"
        using k by auto
      finally show ?thesis .
    qed
    from hdm fset obtain j where "j < 2 ^ ?n" "\<not> vals ! j"
      by auto
    then have nf: "\<not> (\<forall>k < 2 ^ ?n. vals ! k)"
      by blast
    show ?thesis
    proof (intro exI[of _ ?f] conjI allI impI)
      show "synthesize_cnf vars vals = Inr ?f"
        by (rule syn)
      show "well_formed ?f"
        by (rule wf)
      show "variables ?f \<subseteq> set vars"
        by (rule vs)
      show "textbook_value (valuation (counter_model vars k)) ?f = vals ! k"
        if "k < 2 ^ ?n" for k
        by (rule val[OF that])
      show "?f = Binary (py ''|'') (Leaf (hd vars)) (Unary (py ''~'') (Leaf (hd vars)))"
        if "\<forall>k < 2 ^ ?n. vals ! k"
        using that nf by contradiction
    qed
  qed
qed

lemma truth_values_table:
  assumes "distinct vars" and "assert_variables vars = Inr ()"
    and "length vals = 2 ^ length vars"
    and "well_formed f" and "variables f \<subseteq> set vars"
    and "\<forall>k < 2 ^ length vars. textbook_value (valuation (counter_model vars k)) f = vals ! k"
  shows "truth_values f (map (counter_model vars) [0..<2 ^ length vars]) = Inr vals"
proof -
  let ?ms = "map (counter_model vars) [0..<2 ^ length vars]"
  have "\<forall>m \<in> set ?ms. evaluate f m = Inr (textbook_value (valuation m) f)"
    using assms(2,4,5)
    by (auto intro!: evaluate_eq_textbook_value simp: counter_model_is_model counter_model_keys)
  then have "truth_values f ?ms = Inr (map (\<lambda>m. textbook_value (valuation m) f) ?ms)"
    by (rule truth_values_map)
  also have "map (\<lambda>m. textbook_value (valuation m) f) ?ms = map (\<lambda>k. vals ! k) [0..<2 ^ length vars]"
    using assms(6) by (simp add: comp_def)
  also have "\<dots> = vals"
    using assms(3) by (metis map_nth)
  finally show ?thesis .
qed

lemma synthesize_examples:
  "map_sum id repr (synthesize [py ''p'', py ''q''] [True, True, True, False]) =
     Inr (py ''(((~p&~q)|(~p&q))|(p&~q))'')"
  "map_sum id repr (synthesize_cnf [py ''p'', py ''q''] [True, True, True, False]) =
     Inr (py ''(~p|~q)'')"
  "map_sum id repr (synthesize [py ''q'', py ''p''] [False, False, False, False]) =
     Inr (py ''(q&~q)'')"
  "map_sum id repr (synthesize_cnf [py ''q'', py ''p''] [True, True, True, True]) =
     Inr (py ''(q|~q)'')"
  by code_simp+

text \<open>
  Claim C4.  For a non-empty list of \<open>n\<close> distinct variable names and a list of \<open>2 ^ n\<close>
  truth values, \<^verbatim>\<open>synthesize\<close> and \<^verbatim>\<open>synthesize_cnf\<close> both return a formula, and evaluating
  it over \<^verbatim>\<open>all_models\<close> of the names, in order, gives back the list of values.  When no
  value is true \<^verbatim>\<open>synthesize\<close> returns \<^verbatim>\<open>(v&~v)\<close>, and when every value is true
  \<^verbatim>\<open>synthesize_cnf\<close> returns \<^verbatim>\<open>(v|~v)\<close>, for the first name \<open>v\<close>.
\<close>

theorem synthesize_truth_table:
  assumes "vars \<noteq> []" and "distinct vars" and "assert_variables vars = Inr ()"
    and "length vals = 2 ^ length vars"
  shows "\<exists>ms f g. all_models vars = Inr ms \<and>
           synthesize vars vals = Inr f \<and> truth_values f ms = Inr vals \<and>
           synthesize_cnf vars vals = Inr g \<and> truth_values g ms = Inr vals \<and>
           ((\<forall>k < length vals. \<not> vals ! k) \<longrightarrow>
              f = Binary (py ''&'') (Leaf (hd vars)) (Unary (py ''~'') (Leaf (hd vars)))) \<and>
           ((\<forall>k < length vals. vals ! k) \<longrightarrow>
              g = Binary (py ''|'') (Leaf (hd vars)) (Unary (py ''~'') (Leaf (hd vars))))"
proof -
  from synthesize_table[OF assms] obtain f where
    f: "synthesize vars vals = Inr f" "well_formed f" "variables f \<subseteq> set vars"
      "\<forall>k < 2 ^ length vars. textbook_value (valuation (counter_model vars k)) f = vals ! k"
      "(\<forall>k < 2 ^ length vars. \<not> vals ! k) \<longrightarrow>
         f = Binary (py ''&'') (Leaf (hd vars)) (Unary (py ''~'') (Leaf (hd vars)))"
    by blast
  from synthesize_cnf_table[OF assms] obtain g where
    g: "synthesize_cnf vars vals = Inr g" "well_formed g" "variables g \<subseteq> set vars"
      "\<forall>k < 2 ^ length vars. textbook_value (valuation (counter_model vars k)) g = vals ! k"
      "(\<forall>k < 2 ^ length vars. vals ! k) \<longrightarrow>
         g = Binary (py ''|'') (Leaf (hd vars)) (Unary (py ''~'') (Leaf (hd vars)))"
    by blast
  let ?ms = "map (counter_model vars) [0..<2 ^ length vars]"
  have "all_models vars = Inr ?ms"
    using assms by (simp add: all_models_distinct)
  moreover have "truth_values f ?ms = Inr vals"
    using assms f by (intro truth_values_table) auto
  moreover have "truth_values g ?ms = Inr vals"
    using assms g by (intro truth_values_table) auto
  ultimately show ?thesis
    using f(1,5) g(1,5) assms(4) by auto
qed

theorem synthesize_truth_table_witness:
  "[py ''p'', py ''q''] \<noteq> [] \<and> distinct [py ''p'', py ''q''] \<and>
   assert_variables [py ''p'', py ''q''] = Inr () \<and>
   length [True, True, True, False] = 2 ^ length [py ''p'', py ''q''] \<and>
   (\<exists>ms f g. all_models [py ''p'', py ''q''] = Inr ms \<and>
      synthesize [py ''p'', py ''q''] [True, True, True, False] = Inr f \<and>
      truth_values f ms = Inr [True, True, True, False] \<and>
      synthesize_cnf [py ''p'', py ''q''] [True, True, True, False] = Inr g \<and>
      truth_values g ms = Inr [True, True, True, False])"
proof -
  have a: "[py ''p'', py ''q''] \<noteq> []" "distinct [py ''p'', py ''q'']"
    "assert_variables [py ''p'', py ''q''] = Inr ()"
    "length [True, True, True, False] = 2 ^ length [py ''p'', py ''q'']"
    by (simp_all add: is_variable_def)
  from synthesize_truth_table[OF a] a show ?thesis
    by blast
qed

end
